theory Spec2Isabelle
  imports Main "HOL-Library.Word"
begin

unbundle bit_operations_syntax

section \<open>JavaScript values\<close>

text \<open>
  Strings are lists of 8-bit code units (\<^typ>\<open>string\<close>), byte arrays (\<open>Uint8Array\<close>) are
  lists of 8-bit words, and a \<open>BigInt\<close> is an \<^typ>\<open>int\<close>: the bitwise operators of
  \<open>BigInt\<close> act on the infinite two's complement representation, as \<open>AND\<close>, \<open>OR\<close>,
  \<open>push_bit\<close> and \<open>drop_bit\<close> do on \<^typ>\<open>int\<close>.

  A thrown value is either an \<open>Error\<close> made by the code with \<open>new Error(message)\<close>, whose
  \<open>name\<close> is \<open>"Error"\<close>, or an exception raised by the platform itself (a
  \<open>DOMException\<close>, \<open>SyntaxError\<close>, \<open>TypeError\<close>), given by its name and message.
\<close>

type_synonym byte = "8 word"

datatype js_error = Error string | Native string string

fun err_name :: "js_error \<Rightarrow> string" where
  "err_name (Error m) = ''Error''"
| "err_name (Native n m) = n"

definition startsWith :: "string \<Rightarrow> string \<Rightarrow> bool" where
  "startsWith s p = (take (length p) s = p)"

definition isWhiteSpace :: "char \<Rightarrow> bool" where
  "isWhiteSpace c = (of_char c \<in> set [9, 10, 11, 12, 13, 32, 160 :: nat])"

definition trim :: "string \<Rightarrow> string" where
  "trim s = rev (dropWhile isWhiteSpace (rev (dropWhile isWhiteSpace s)))"

definition toLowerChar :: "char \<Rightarrow> char" where
  "toLowerChar c =
     (let n = of_char c :: nat
      in if (65 \<le> n \<and> n \<le> 90) \<or> (192 \<le> n \<and> n \<le> 222 \<and> n \<noteq> 215)
         then char_of (n + 32) else c)"

definition toLowerCase :: "string \<Rightarrow> string" where
  "toLowerCase s = map toLowerChar s"

text \<open>The digit of a value below 16, as \<open>toString(16)\<close> writes it (lowercase).\<close>

definition digitChar :: "nat \<Rightarrow> char" where
  "digitChar d = (if d < 10 then char_of (48 + d) else char_of (87 + d))"

text \<open>The value of a hexadecimal digit of either case, as \<open>BigInt\<close> and \<open>parseInt\<close> read it.\<close>

definition digitValue :: "char \<Rightarrow> nat option" where
  "digitValue c =
     (let n = of_char c :: nat
      in if 48 \<le> n \<and> n \<le> 57 then Some (n - 48)
         else if 97 \<le> n \<and> n \<le> 102 then Some (n - 87)
         else if 65 \<le> n \<and> n \<le> 70 then Some (n - 55)
         else None)"

definition isHexDigit :: "char \<Rightarrow> bool" where
  "isHexDigit c = (digitValue c \<noteq> None)"

text \<open>The character class \<open>[0-9a-f]\<close>.\<close>

definition isLowerHex :: "char \<Rightarrow> bool" where
  "isLowerHex c = (let n = of_char c :: nat in (48 \<le> n \<and> n \<le> 57) \<or> (97 \<le> n \<and> n \<le> 102))"

text \<open>The test of the regular expression \<open>/^[0-9a-f]+$/\<close>.\<close>

definition matchesLowerHex :: "string \<Rightarrow> bool" where
  "matchesLowerHex s = (s \<noteq> [] \<and> list_all isLowerHex s)"

definition hexValue :: "string \<Rightarrow> nat" where
  "hexValue s = foldl (\<lambda>v c. 16 * v + (case digitValue c of Some d \<Rightarrow> d | None \<Rightarrow> 0)) 0 s"

text \<open>
  \<open>BigInt("0x" + s)\<close>: the text is read after white space at its end is dropped, and
  anything but a non-empty run of hexadecimal digits raises \<open>SyntaxError\<close>.
\<close>

definition BigInt_0x :: "string \<Rightarrow> js_error + int" where
  "BigInt_0x s =
     (let t = rev (dropWhile isWhiteSpace (rev s))
      in if t \<noteq> [] \<and> list_all isHexDigit t then Inr (int (hexValue t))
         else Inl (Native ''SyntaxError'' ''Cannot convert to a BigInt''))"

text \<open>\<open>toString(16)\<close> of a \<open>BigInt\<close>: no leading zero, a minus sign before a negative value.\<close>

fun hexDigits :: "nat \<Rightarrow> string" where
  "hexDigits n = (if n < 16 then [digitChar n] else hexDigits (n div 16) @ [digitChar (n mod 16)])"

definition toString16 :: "int \<Rightarrow> string" where
  "toString16 v = (if v < 0 then CHR ''-'' # hexDigits (nat (- v)) else hexDigits (nat v))"

section \<open>The Bit128 codec (\<open>packages/site/lib/bit128.ts\<close>)\<close>

definition mask128 :: int where
  "mask128 = 2 ^ 128 - 1"

definition hex16ToBigint :: "string \<Rightarrow> js_error + int" where
  "hex16ToBigint hex =
     (let h = toLowerCase (trim hex);
          s = (if startsWith h ''0x'' then drop 2 h else h)
      in if length s = 0 then Inr 0
         else if \<not> matchesLowerHex s then Inl (Error ''Invalid hex'')
         else if length s > 32 then Inl (Error ''Too many hex digits for 128-bit'')
         else (case BigInt_0x s of
                 Inl e \<Rightarrow> Inl e
               | Inr v \<Rightarrow> Inr (v AND mask128)))"

definition bigintToHex16 :: "int \<Rightarrow> string" where
  "bigintToHex16 v =
     (let x = v AND mask128;
          s = toString16 x;
          s' = (if length s < 32 then replicate (32 - length s) CHR ''0'' @ s else s)
      in ''0x'' @ s')"

text \<open>
  The digits that \<open>hex16ToBigint\<close> reads (its constant \<open>s\<close>): the input trimmed, in
  lowercase, without the prefix \<open>0x\<close> when it has one.
\<close>

definition hexBody :: "string \<Rightarrow> string" where
  "hexBody hex = (let h = toLowerCase (trim hex) in if startsWith h ''0x'' then drop 2 h else h)"

section \<open>Key bytes and integers (\<open>key16ToBigint\<close>, \<open>bigintToKey16\<close> of \<open>aes.ts\<close>)\<close>

text \<open>The two functions are the same text in every copy of \<open>aes.ts\<close>.\<close>

definition key16ToBigint :: "byte list \<Rightarrow> int" where
  "key16ToBigint k = foldl (\<lambda>v b. push_bit 8 v OR uint b) 0 k"

text \<open>
  The loop \<open>for (let i = 15; i >= 0; i--)\<close>: the first argument is \<open>i + 1\<close>. A store into
  a \<open>Uint8Array\<close> keeps the low eight bits.
\<close>

fun bigintToKey16_loop :: "nat \<Rightarrow> int \<Rightarrow> byte list \<Rightarrow> byte list" where
  "bigintToKey16_loop 0 v out = out"
| "bigintToKey16_loop (Suc i) v out =
     bigintToKey16_loop i (drop_bit 8 v) (out[i := word_of_int (v AND 255)])"

definition bigintToKey16 :: "int \<Rightarrow> byte list" where
  "bigintToKey16 v = bigintToKey16_loop 16 v (replicate 16 0)"

text \<open>The big-endian encoding of a value on sixteen bytes, as the specification words it.\<close>

definition bigEndian16 :: "int \<Rightarrow> byte list" where
  "bigEndian16 w = map (\<lambda>i. word_of_int (w div 256 ^ (15 - i))) [0..<16]"

section \<open>Byte arrays and hexadecimal text (\<open>aes.ts\<close>)\<close>

text \<open>
  The repository holds three copies of \<open>aes.ts\<close>. Their definitions carry a suffix:
  \<^item> \<open>_v1\<close>: the first text of \<open>packages/site/lib/aes.ts\<close> (lines 1 to 134);
  \<^item> \<open>_v2\<close>: the second text of the same file (lines 135 to 309);
  \<^item> \<open>_v3\<close>: the text at lines 1123 to 1301 of \<open>unnamed/part_006\<close>.
  A definition without suffix is the same text in every copy that has it.
\<close>

text \<open>\<open>padStart(2, "0")\<close>.\<close>

definition padStart2 :: "string \<Rightarrow> string" where
  "padStart2 s = (if length s < 2 then replicate (2 - length s) CHR ''0'' @ s else s)"

definition byteHex :: "byte \<Rightarrow> string" where
  "byteHex x = padStart2 (toString16 (uint x))"

definition bytesToHex :: "byte list \<Rightarrow> string" where
  "bytesToHex b = ''0x'' @ concat (map byteHex b)"

definition bufToHex :: "byte list \<Rightarrow> string" where
  "bufToHex buf = concat (map byteHex buf)"

text \<open>
  \<open>parseInt(str, 16)\<close>: white space at the start is skipped, then a sign and a prefix
  \<open>0x\<close> or \<open>0X\<close> are read, then the longest run of hexadecimal digits; \<open>None\<close> is
  \<open>NaN\<close>. A store of \<open>NaN\<close> into a \<open>Uint8Array\<close> writes 0, a store of a number its low
  eight bits.
\<close>

definition parseInt16 :: "string \<Rightarrow> int option" where
  "parseInt16 str =
     (let s = dropWhile isWhiteSpace str;
          neg = (s \<noteq> [] \<and> hd s = CHR ''-'');
          s1 = (if s \<noteq> [] \<and> (hd s = CHR ''-'' \<or> hd s = CHR ''+'') then tl s else s);
          s2 = (if startsWith s1 ''0x'' \<or> startsWith s1 ''0X'' then drop 2 s1 else s1);
          ds = takeWhile isHexDigit s2
      in if ds = [] then None
         else Some (if neg then - int (hexValue ds) else int (hexValue ds)))"

definition toUint8 :: "int option \<Rightarrow> byte" where
  "toUint8 r = (case r of None \<Rightarrow> 0 | Some n \<Rightarrow> word_of_int n)"

text \<open>\<open>str.substr(start, len)\<close> for a start and a length that are not negative.\<close>

definition substr :: "string \<Rightarrow> nat \<Rightarrow> nat \<Rightarrow> string" where
  "substr s start len = take len (drop start s)"

text \<open>
  The loop of \<open>hexToBytes\<close> over an array of \<open>n\<close> bytes:
  \<open>out[i] = parseInt(h.substr(i * 2, 2), 16)\<close>.
\<close>

definition hexPairs :: "string \<Rightarrow> nat \<Rightarrow> byte list" where
  "hexPairs h n = map (\<lambda>i. toUint8 (parseInt16 (substr h (i * 2) 2))) [0..<n]"

text \<open>
  The first copy drops the first two characters whatever they are, and
  \<open>new Uint8Array(h.length / 2)\<close> rounds the length down.
\<close>

definition hexToBytes_v1 :: "string \<Rightarrow> byte list" where
  "hexToBytes_v1 hex = (let h = drop 2 hex in hexPairs h (length h div 2))"

definition strip0x :: "string \<Rightarrow> string" where
  "strip0x hex = (if startsWith hex ''0x'' then drop 2 hex else hex)"

text \<open>The later copies (\<open>_v2\<close> and \<open>_v3\<close> have the same text).\<close>

definition hexToBytes :: "string \<Rightarrow> js_error + byte list" where
  "hexToBytes hex =
     (let clean = strip0x hex
      in if length clean mod 2 \<noteq> 0 then Inl (Error ''hex string has odd length'')
         else Inr (hexPairs clean (length clean div 2)))"

definition concat_bytes :: "byte list \<Rightarrow> byte list \<Rightarrow> byte list" where
  "concat_bytes a b = a @ b"

section \<open>The platform: Web Crypto, text codecs, the console\<close>

text \<open>
  A \<open>CryptoKey\<close> is an AES-GCM key with the usages \<open>encrypt\<close> and \<open>decrypt\<close>, as every
  key that \<open>aes.ts\<close> generates or imports is: its raw material and its \<open>extractable\<close>
  flag. \<open>importKey\<close> accepts raw AES material of 16, 24 or 32 bytes, and \<open>exportKey\<close>
  refuses a key that is not extractable.
\<close>

record CryptoKey =
  material :: "byte list"
  extractable :: bool

definition subtle_importKey :: "byte list \<Rightarrow> bool \<Rightarrow> js_error + CryptoKey" where
  "subtle_importKey keyData ext =
     (if length keyData \<in> set [16, 24, 32]
      then Inr \<lparr>material = keyData, extractable = ext\<rparr>
      else Inl (Native ''DataError'' []))"

definition subtle_exportKey :: "CryptoKey \<Rightarrow> js_error + byte list" where
  "subtle_exportKey key =
     (if extractable key then Inr (material key)
      else Inl (Native ''InvalidAccessError'' []))"

text \<open>
  The cipher and the text codecs are parameters: AES-GCM encryption of a plaintext under
  key material and an IV (no associated data, a tag of 128 bits appended), AES-GCM
  decryption under key material, an IV, optional associated data and a tag length in
  bits, \<open>TextEncoder.encode\<close> and \<open>TextDecoder.decode\<close>.
\<close>

record platform =
  gcm_encrypt :: "byte list \<Rightarrow> byte list \<Rightarrow> byte list \<Rightarrow> byte list"
  gcm_decrypt :: "byte list \<Rightarrow> byte list \<Rightarrow> byte list option \<Rightarrow> nat \<Rightarrow> byte list
                  \<Rightarrow> js_error + byte list"
  utf8_encode :: "string \<Rightarrow> byte list"
  utf8_decode :: "byte list \<Rightarrow> string"

text \<open>
  What a call does besides returning: the lines it writes to the console and the calls
  it makes to \<open>crypto.subtle\<close>, in order.
\<close>

datatype js_value = VStr string | VErr js_error

datatype event =
    ConsoleLog "js_value list"
  | ConsoleError "js_value list"
  | SubtleExportKey CryptoKey
  | SubtleEncrypt CryptoKey "byte list" "byte list"
  | SubtleDecrypt CryptoKey "byte list" "byte list option" nat "byte list"

fun is_decrypt_call :: "event \<Rightarrow> bool" where
  "is_decrypt_call (SubtleDecrypt key iv aad tagLength ct) = True"
| "is_decrypt_call ev = False"

text \<open>
  An asynchronous function is modelled by its settled promise: \<open>Inl\<close> a rejection (the
  thrown value), \<open>Inr\<close> the value it resolves to, with the events of the call.
\<close>

type_synonym 'a io = "(js_error + 'a) \<times> event list"

definition return_io :: "'a \<Rightarrow> 'a io" where
  "return_io x = (Inr x, [])"

definition throw_io :: "js_error \<Rightarrow> 'a io" where
  "throw_io e = (Inl e, [])"

definition emit :: "event \<Rightarrow> unit io" where
  "emit ev = (Inr (), [ev])"

definition bind_io :: "'a io \<Rightarrow> ('a \<Rightarrow> 'b io) \<Rightarrow> 'b io" where
  "bind_io m f =
     (case m of
        (Inl e, t) \<Rightarrow> (Inl e, t)
      | (Inr x, t) \<Rightarrow> (case f x of (r, t') \<Rightarrow> (r, t @ t')))"

text \<open>\<open>try { m } catch (err) { h err }\<close>.\<close>

definition catch_io :: "'a io \<Rightarrow> (js_error \<Rightarrow> 'a io) \<Rightarrow> 'a io" where
  "catch_io m h =
     (case m of
        (Inl e, t) \<Rightarrow> (case h e of (r, t') \<Rightarrow> (r, t @ t'))
      | (Inr x, t) \<Rightarrow> (Inr x, t))"

definition exportKey_io :: "CryptoKey \<Rightarrow> byte list io" where
  "exportKey_io key = (subtle_exportKey key, [SubtleExportKey key])"

definition encrypt_io :: "platform \<Rightarrow> CryptoKey \<Rightarrow> byte list \<Rightarrow> byte list \<Rightarrow> byte list io" where
  "encrypt_io P key iv pt = (Inr (gcm_encrypt P (material key) iv pt), [SubtleEncrypt key iv pt])"

definition decrypt_io ::
  "platform \<Rightarrow> CryptoKey \<Rightarrow> byte list \<Rightarrow> byte list option \<Rightarrow> nat \<Rightarrow> byte list \<Rightarrow> byte list io" where
  "decrypt_io P key iv aad tagLength ct =
     (gcm_decrypt P (material key) iv aad tagLength ct, [SubtleDecrypt key iv aad tagLength ct])"

text \<open>
  \<open>crypto.getRandomValues(new Uint8Array(n))\<close>: the array filled with the bytes that the
  random source \<open>rnd\<close> gives to this call.
\<close>

definition getRandomValues :: "(nat \<Rightarrow> byte) \<Rightarrow> nat \<Rightarrow> byte list" where
  "getRandomValues rnd n = map rnd [0..<n]"

text \<open>The decimal text of a length, in a template string.\<close>

fun decDigits :: "nat \<Rightarrow> string" where
  "decDigits n = (if n < 10 then [digitChar n] else decDigits (n div 10) @ [digitChar (n mod 10)])"

section \<open>The symmetric cipher module (\<open>aes.ts\<close>)\<close>

subsection \<open>Keys\<close>

definition aesImportRaw16_v1 :: "byte list \<Rightarrow> js_error + CryptoKey" where
  "aesImportRaw16_v1 raw =
     (if length raw \<noteq> 16 then Inl (Error ''Key must be 16 bytes'')
      else subtle_importKey raw True)"

definition aesImportRaw16_v2 :: "byte list \<Rightarrow> js_error + CryptoKey" where
  "aesImportRaw16_v2 raw =
     (if length raw \<noteq> 16
      then Inl (Error (''AES-128 key must be 16 bytes, got '' @ decDigits (length raw)))
      else subtle_importKey raw True)"

text \<open>The third copy imports the key with \<open>extractable = false\<close>.\<close>

definition aesImportRaw16_v3 :: "byte list \<Rightarrow> js_error + CryptoKey" where
  "aesImportRaw16_v3 raw =
     (if length raw \<noteq> 16
      then Inl (Error (''AES-128 key must be 16 bytes, got '' @ decDigits (length raw)))
      else subtle_importKey raw False)"

text \<open>\<open>aesExportRaw16\<close> is the same text in the two copies that have it (\<open>_v1\<close>, \<open>_v2\<close>).\<close>

definition aesExportRaw16 :: "CryptoKey \<Rightarrow> js_error + byte list" where
  "aesExportRaw16 key =
     (case subtle_exportKey key of
        Inl e \<Rightarrow> Inl e
      | Inr raw \<Rightarrow> if length raw \<noteq> 16 then Inl (Error ''Exported key not 16 bytes'') else Inr raw)"

text \<open>\<open>printKeyHex\<close> (\<open>_v2\<close> and \<open>_v3\<close>): export the key and print it.\<close>

definition printKeyHex :: "CryptoKey \<Rightarrow> unit io" where
  "printKeyHex key =
     bind_io (exportKey_io key)
       (\<lambda>raw. emit (ConsoleLog [VStr ''Key (hex):'', VStr (bufToHex raw)]))"

subsection \<open>Encryption\<close>


definition encryptUtf8AesGcmPacked_v2 ::
  "platform \<Rightarrow> (nat \<Rightarrow> byte) \<Rightarrow> string \<Rightarrow> CryptoKey \<Rightarrow> string io" where
  "encryptUtf8AesGcmPacked_v2 P rnd s key =
     bind_io (printKeyHex key)
       (\<lambda>_. let iv = getRandomValues rnd 12;
                pt = utf8_encode P s
            in bind_io (encrypt_io P key iv pt) (\<lambda>ct. return_io (bytesToHex (concat_bytes iv ct))))"


subsection \<open>Decryption\<close>

definition decryptUtf8AesGcmPacked_v1 :: "platform \<Rightarrow> string \<Rightarrow> CryptoKey \<Rightarrow> string io" where
  "decryptUtf8AesGcmPacked_v1 P packed key =
     (let data = hexToBytes_v1 packed
      in if length data < 12 then throw_io (Error ''cipher too short'')
         else let iv = take 12 data;
                  ct = drop 12 data
              in bind_io (decrypt_io P key iv None 128 ct) (\<lambda>pt. return_io (utf8_decode P pt)))"

text \<open>
  The handler of the later copies: it prints the caught value and throws a new \<open>Error\<close>
  whose message quotes the name of the caught value when it has one.
\<close>

definition decrypt_failed_message :: "js_error \<Rightarrow> string" where
  "decrypt_failed_message e =
     (if err_name e \<noteq> []
      then ''AES-GCM decrypt failed: '' @ err_name e @ '' (likely key/IV/tag/AAD mismatch)''
      else ''AES-GCM decrypt failed (likely key/IV/tag/AAD mismatch)'')"

definition decrypt_failed :: "js_error \<Rightarrow> string io" where
  "decrypt_failed e =
     bind_io
       (emit (ConsoleError [VStr ''[AES-GCM decrypt] failed:'',
                            (if err_name e \<noteq> [] then VStr (err_name e) else VErr e), VErr e]))
       (\<lambda>_. throw_io (Error (decrypt_failed_message e)))"

text \<open>
  The test \<open>data.length < 12 + tagLengthBits / 8\<close> is written without the division.
  The call with two arguments is the call with \<open>aad = None\<close> and \<open>tagLengthBits = 128\<close>.
\<close>

definition decryptUtf8AesGcmPacked_v2 ::
  "platform \<Rightarrow> string \<Rightarrow> CryptoKey \<Rightarrow> byte list option \<Rightarrow> nat \<Rightarrow> string io" where
  "decryptUtf8AesGcmPacked_v2 P packed key aad tagLengthBits =
     catch_io
       (bind_io (emit (ConsoleLog [VStr ''AES-GCM decrypt:'', VStr packed]))
          (\<lambda>_. bind_io (printKeyHex key)
          (\<lambda>_. bind_io (hexToBytes packed, [])
          (\<lambda>data. if 8 * length data < 96 + tagLengthBits
                   then throw_io (Error ''cipher too short (missing IV or tag)'')
                   else let iv = take 12 data;
                            ctAndTag = drop 12 data
                        in bind_io (decrypt_io P key iv aad tagLengthBits ctAndTag)
                             (\<lambda>pt. return_io (utf8_decode P pt))))))
       decrypt_failed"

definition decryptUtf8AesGcmPacked_v3 ::
  "platform \<Rightarrow> string \<Rightarrow> CryptoKey \<Rightarrow> byte list option \<Rightarrow> nat \<Rightarrow> string io" where
  "decryptUtf8AesGcmPacked_v3 P packed key aad tagLengthBits =
     catch_io
       (bind_io (hexToBytes packed, [])
          (\<lambda>data. if 8 * length data < 96 + tagLengthBits
                   then throw_io (Error ''cipher too short (missing IV or tag)'')
                   else let ivBytes = take 12 data;
                            ctAndTagBytes = drop 12 data
                        in bind_io (decrypt_io P key ivBytes aad tagLengthBits ctAndTagBytes)
                             (\<lambda>pt. return_io (utf8_decode P pt))))
       decrypt_failed"

subsection \<open>Platform laws and a small platform to run the functions on\<close>


text \<open>
  A stand-in cipher and codec for concrete runs: the tag is made of the key and the IV,
  the text codec maps a code unit to the byte of the same value.
\<close>

definition toy_tag :: "byte list \<Rightarrow> byte list \<Rightarrow> byte list" where
  "toy_tag k iv = take 16 (k @ iv @ replicate 16 0)"

definition toy_encrypt :: "byte list \<Rightarrow> byte list \<Rightarrow> byte list \<Rightarrow> byte list" where
  "toy_encrypt k iv pt = pt @ toy_tag k iv"

definition toy_decrypt ::
  "byte list \<Rightarrow> byte list \<Rightarrow> byte list option \<Rightarrow> nat \<Rightarrow> byte list \<Rightarrow> js_error + byte list" where
  "toy_decrypt k iv aad tagLength ct =
     (if tagLength = 128 \<and> 16 \<le> length ct \<and> drop (length ct - 16) ct = toy_tag k iv
      then Inr (take (length ct - 16) ct)
      else Inl (Native ''OperationError'' []))"

definition toy_platform :: platform where
  "toy_platform =
     \<lparr>gcm_encrypt = toy_encrypt, gcm_decrypt = toy_decrypt,
      utf8_encode = map (\<lambda>c. of_nat (of_char c)),
      utf8_decode = map (\<lambda>b. char_of (unat b))\<rparr>"


definition key_a :: CryptoKey where
  "key_a = \<lparr>material = [0, 1, 2, 3, 4, 5, 6, 7, 8, 9, 10, 11, 12, 13, 14, 15], extractable = True\<rparr>"

definition key_b :: CryptoKey where
  "key_b = \<lparr>material = [0, 1, 2, 3, 4, 5, 6, 7, 8, 9, 10, 11, 12, 13, 14, 15], extractable = False\<rparr>"

text \<open>A packed value of 30 bytes whose last byte was changed, and its bytes.\<close>

definition packed_bad :: string where
  "packed_bad = ''0x0000000000000000000000006869000102030405060708090a0b0c0d0e0e''"

definition data_bad :: "byte list" where
  "data_bad = [0, 0, 0, 0, 0, 0, 0, 0, 0, 0, 0, 0,
               104, 105, 0, 1, 2, 3, 4, 5, 6, 7, 8, 9, 10, 11, 12, 13, 14, 14]"

section \<open>The SDK loader (\<open>constants.ts\<close> and \<open>RelayerSDKLoader.ts\<close>, in \<open>unnamed/part_003\<close>)\<close>

text \<open>
  The page: the parts of \<open>window\<close> and \<open>document\<close> that the loader reads and writes.
  \<open>relayerSDK\<close> is \<open>None\<close> when \<open>window\<close> has no such property, and otherwise holds the
  verdict of \<open>isFhevmRelayerSDKType\<close> on it. \<open>fetch_wrappers\<close> and
  \<open>instantiate_wrappers\<close> list the wrappers that were put around \<open>window.fetch\<close> and
  \<open>WebAssembly.instantiateStreaming\<close>, the outermost first, each with the base path it
  was made with. Console output of the loader is left out.
\<close>

record page =
  location_pathname :: string
  location_origin :: string
  relayerSDK :: "bool option"
  scripts :: "string list"
  fetch_wrappers :: "string list"
  instantiate_wrappers :: "string list"

text \<open>
  Where the code runs: on the server (\<open>typeof window === "undefined"\<close>), with the fact
  whether \<open>NODE_ENV\<close> is \<open>production\<close>, or in a browser page.
\<close>

datatype env = Server bool | Browser page

definition getBasePath :: "env \<Rightarrow> string" where
  "getBasePath w =
     (case w of
        Server production \<Rightarrow> (if production then ''/farewell'' else [])
      | Browser pg \<Rightarrow> (if startsWith (location_pathname pg) ''/farewell'' then ''/farewell'' else []))"

definition getSDKCDNUrl :: "env \<Rightarrow> string" where
  "getSDKCDNUrl w = getBasePath w @ ''/relayer-sdk/relayer-sdk-js.umd.cjs''"

subsection \<open>The wrapper around \<open>fetch\<close>\<close>

definition endsWith :: "string \<Rightarrow> string \<Rightarrow> bool" where
  "endsWith s p = (length p \<le> length s \<and> drop (length s - length p) s = p)"

fun includes_str :: "string \<Rightarrow> string \<Rightarrow> bool" where
  "includes_str [] p = (p = [])"
| "includes_str (c # s) p = (startsWith (c # s) p \<or> includes_str s p)"

text \<open>
  A \<open>URL\<close> object, and the input of \<open>fetch\<close>: a string, a \<open>URL\<close> or a \<open>Request\<close>, which
  has a \<open>url\<close> and other properties. The constructor \<open>new URL(url, base)\<close> belongs to the
  platform and is a parameter \<open>URL_new\<close>; it throws on text that is no URL.
\<close>

record URL =
  url_href :: string
  url_origin :: string
  url_pathname :: string
  url_search :: string
  url_hash :: string

datatype 'r fetch_input = FString string | FURL URL | FRequest string 'r

fun input_url :: "'r fetch_input \<Rightarrow> string" where
  "input_url (FString s) = s"
| "input_url (FURL u) = url_href u"
| "input_url (FRequest u r) = u"

definition isWasmUrl :: "string \<Rightarrow> bool" where
  "isWasmUrl url = (url \<noteq> [] \<and> (endsWith url ''.wasm'' \<or> includes_str url ''.wasm''))"

text \<open>
  The function that \<open>_patchWasmLoading\<close> puts in place of \<open>window.fetch\<close>, for the base
  path \<open>basePath\<close> and the origin of the page. Its value is the rejection, or the
  arguments that it hands to the original \<open>fetch\<close>. \<open>new Request(newUrl, input)\<close> is the
  input with the new URL.
\<close>

definition patched_fetch ::
  "string \<Rightarrow> (string \<Rightarrow> string option \<Rightarrow> js_error + URL) \<Rightarrow> string \<Rightarrow> 'r fetch_input \<Rightarrow> 'i
   \<Rightarrow> js_error + ('r fetch_input \<times> 'i)" where
  "patched_fetch basePath URL_new origin input init =
     (let url = input_url input
      in if isWasmUrl url then
           (case URL_new url (Some origin) of
              Inl e \<Rightarrow> Inl e
            | Inr urlObj \<Rightarrow>
                if startsWith (url_pathname urlObj) ''/''
                   \<and> \<not> startsWith (url_pathname urlObj) basePath
                then let newPath = basePath @ url_pathname urlObj;
                         newUrl = url_origin urlObj @ newPath @ url_search urlObj @ url_hash urlObj
                     in (case input of
                           FRequest u r \<Rightarrow> Inr (FRequest newUrl r, init)
                         | FURL u \<Rightarrow>
                             (case URL_new newUrl None of
                                Inl e \<Rightarrow> Inl e
                              | Inr u' \<Rightarrow> Inr (FURL u', init))
                         | FString s \<Rightarrow> Inr (FString newUrl, init))
                else Inr (input, init))
         else Inr (input, init))"

text \<open>
  \<open>window.fetch\<close> of a page: the wrappers run from the outermost inwards, and the value
  is what the native \<open>fetch\<close> receives.
\<close>

fun run_wrappers ::
  "string list \<Rightarrow> (string \<Rightarrow> string option \<Rightarrow> js_error + URL) \<Rightarrow> string \<Rightarrow> 'r fetch_input \<Rightarrow> 'i
   \<Rightarrow> js_error + ('r fetch_input \<times> 'i)" where
  "run_wrappers [] URL_new origin input init = Inr (input, init)"
| "run_wrappers (b # bs) URL_new origin input init =
     (case patched_fetch b URL_new origin input init of
        Inl e \<Rightarrow> Inl e
      | Inr (input', init') \<Rightarrow> run_wrappers bs URL_new origin input' init')"

definition window_fetch ::
  "page \<Rightarrow> (string \<Rightarrow> string option \<Rightarrow> js_error + URL) \<Rightarrow> 'r fetch_input \<Rightarrow> 'i
   \<Rightarrow> js_error + ('r fetch_input \<times> 'i)" where
  "window_fetch pg URL_new input init =
     run_wrappers (fetch_wrappers pg) URL_new (location_origin pg) input init"

subsection \<open>The loader object\<close>

record loader =
  wasmPatchApplied :: bool

definition new_loader :: loader where
  "new_loader = \<lparr>wasmPatchApplied = False\<rparr>"

definition patchWasmLoading :: "loader \<Rightarrow> page \<Rightarrow> loader \<times> page" where
  "patchWasmLoading l pg =
     (if wasmPatchApplied l then (l, pg)
      else let l' = l\<lparr>wasmPatchApplied := True\<rparr>;
               basePath = getBasePath (Browser pg)
           in if basePath = [] then (l', pg)
              else (l', pg\<lparr>fetch_wrappers := basePath # fetch_wrappers pg,
                           instantiate_wrappers := basePath # instantiate_wrappers pg\<rparr>))"

definition isFhevmWindowType :: "page \<Rightarrow> bool" where
  "isFhevmWindowType pg = (case relayerSDK pg of None \<Rightarrow> False | Some valid \<Rightarrow> valid)"

text \<open>
  What happens to a script element that \<open>load\<close> adds to the document: it loads, and
  leaves \<open>window.relayerSDK\<close> as given, or it fails to load.
\<close>

datatype script_result = ScriptLoaded "bool option" | ScriptError

text \<open>
  \<open>load\<close>, with the promise it returns settled: the result (\<open>Inl\<close> for a rejection and
  for the error that \<open>load\<close> throws itself), the loader and the page after.
\<close>

definition load :: "script_result \<Rightarrow> loader \<Rightarrow> env \<Rightarrow> (js_error + unit) \<times> loader \<times> env" where
  "load sr l w =
     (case w of
        Server production \<Rightarrow>
          (Inl (Error ''RelayerSDKLoader: can only be used in the browser.''), l, w)
      | Browser pg0 \<Rightarrow>
          (case patchWasmLoading l pg0 of (l', pg) \<Rightarrow>
             (case relayerSDK pg of
                Some valid \<Rightarrow>
                  if \<not> valid
                  then (Inl (Error ''RelayerSDKLoader: Unable to load FHEVM Relayer SDK''),
                        l', Browser pg)
                  else (Inr (), l', Browser pg)
              | None \<Rightarrow>
                  (let sdkUrl = getSDKCDNUrl (Browser pg)
                   in if sdkUrl \<in> set (scripts pg) then
                        (if \<not> isFhevmWindowType pg
                         then (Inl (Error ''RelayerSDKLoader: window object does not contain a valid relayerSDK object.''),
                               l', Browser pg)
                         else (Inr (), l', Browser pg))
                      else
                        (let pg1 = pg\<lparr>scripts := scripts pg @ [sdkUrl]\<rparr>
                         in case sr of
                              ScriptLoaded sdk \<Rightarrow>
                                (let pg2 = pg1\<lparr>relayerSDK := sdk\<rparr>
                                 in if \<not> isFhevmWindowType pg2
                                    then (Inl (Error (''RelayerSDKLoader: Relayer SDK script has been successfully loaded from ''
                                                @ sdkUrl @ '', however, the window.relayerSDK object is invalid.'')),
                                          l', Browser pg2)
                                    else (Inr (), l', Browser pg2))
                            | ScriptError \<Rightarrow>
                                (Inl (Error (''RelayerSDKLoader: Failed to load Relayer SDK from '' @ sdkUrl)),
                                 l', Browser pg1))))))"

text \<open>A sequence of calls of \<open>load\<close> on one loader, each awaited before the next.\<close>

fun loads :: "script_result list \<Rightarrow> loader \<Rightarrow> env \<Rightarrow> loader \<times> env" where
  "loads [] l w = (l, w)"
| "loads (sr # srs) l w = (case load sr l w of (r, l', w') \<Rightarrow> loads srs l' w')"

fun fetch_wrappers_of :: "env \<Rightarrow> string list" where
  "fetch_wrappers_of (Server production) = []"
| "fetch_wrappers_of (Browser pg) = fetch_wrappers pg"

fun instantiate_wrappers_of :: "env \<Rightarrow> string list" where
  "instantiate_wrappers_of (Server production) = []"
| "instantiate_wrappers_of (Browser pg) = instantiate_wrappers pg"

subsection \<open>A page and a URL constructor to run the loader on\<close>

text \<open>
  A stand-in for \<open>new URL(url, base)\<close> that reads references starting with a slash:
  the path runs up to the first \<open>?\<close> or \<open>#\<close>, the query up to the first \<open>#\<close>.
\<close>

definition toy_URL :: "string \<Rightarrow> string option \<Rightarrow> js_error + URL" where
  "toy_URL url base =
     (case base of
        None \<Rightarrow> Inl (Native ''TypeError'' ''Invalid URL'')
      | Some b \<Rightarrow>
          if startsWith url ''/'' then
            (let path = takeWhile (\<lambda>c. c \<noteq> CHR ''?'' \<and> c \<noteq> CHR ''#'') url;
                 rest = dropWhile (\<lambda>c. c \<noteq> CHR ''?'' \<and> c \<noteq> CHR ''#'') url
             in Inr \<lparr>url_href = b @ url, url_origin = b, url_pathname = path,
                     url_search = takeWhile (\<lambda>c. c \<noteq> CHR ''#'') rest,
                     url_hash = dropWhile (\<lambda>c. c \<noteq> CHR ''#'') rest\<rparr>)
          else Inl (Native ''TypeError'' ''Invalid URL''))"

definition page0 :: page where
  "page0 = \<lparr>location_pathname = ''/farewell/'', location_origin = ''https://example.org'',
            relayerSDK = None, scripts = [], fetch_wrappers = [], instantiate_wrappers = []\<rparr>"

text \<open>A page served at the root, and the \<open>URL\<close> of a reference to the binary module.\<close>

definition page_root :: page where
  "page_root = \<lparr>location_pathname = ''/'', location_origin = ''https://example.org'',
            relayerSDK = None, scripts = [], fetch_wrappers = [], instantiate_wrappers = []\<rparr>"

definition url_tfhe :: URL where
  "url_tfhe = \<lparr>url_href = ''https://example.org/tfhe_bg.wasm?v=1#x'',
               url_origin = ''https://example.org'', url_pathname = ''/tfhe_bg.wasm'',
               url_search = ''?v=1'', url_hash = ''#x''\<rparr>"

text \<open>The page after two loader objects have each run \<open>load\<close> once.\<close>

definition after_two_loaders :: env where
  "after_two_loaders =
     snd (snd (load ScriptError new_loader (snd (snd (load ScriptError new_loader (Browser page0))))))"

section \<open>Properties of the Bit128 codec\<close>

declare hexDigits.simps [simp del]

lemma of_char_digitChar: "d < 16 \<Longrightarrow> of_char (digitChar d) = (if d < 10 then 48 + d else 87 + d)"
  by (simp add: digitChar_def)

lemma isLowerHex_digitChar: "d < 16 \<Longrightarrow> isLowerHex (digitChar d)"
  by (auto simp: isLowerHex_def of_char_digitChar Let_def)

lemma digitValue_digitChar: "d < 16 \<Longrightarrow> digitValue (digitChar d) = Some d"
  by (auto simp: digitValue_def of_char_digitChar Let_def)

lemma hexDigits_lower: "list_all isLowerHex (hexDigits n)"
proof (induction n rule: hexDigits.induct)
  case (1 n)
  then show ?case by (subst hexDigits.simps) (simp add: isLowerHex_digitChar)
qed

lemma hexDigits_nonempty: "hexDigits n \<noteq> []"
  by (subst hexDigits.simps) simp

lemma hexValue_snoc: "hexValue (s @ [c]) = 16 * hexValue s + (case digitValue c of Some d \<Rightarrow> d | None \<Rightarrow> 0)"
  by (simp add: hexValue_def)

lemma hexValue_hexDigits: "hexValue (hexDigits n) = n"
proof (induction n rule: hexDigits.induct)
  case (1 n)
  show ?case
  proof (cases "n < 16")
    case True
    then show ?thesis by (subst hexDigits.simps) (simp add: hexValue_def digitValue_digitChar)
  next
    case False
    with 1 have "hexValue (hexDigits (n div 16)) = n div 16" by simp
    with False show ?thesis
      by (subst hexDigits.simps) (simp add: hexValue_snoc digitValue_digitChar)
  qed
qed

lemma length_hexDigits: "0 < k \<Longrightarrow> n < 16 ^ k \<Longrightarrow> length (hexDigits n) \<le> k"
proof (induction n arbitrary: k rule: hexDigits.induct)
  case (1 n)
  show ?case
  proof (cases "n < 16")
    case True
    with 1(2) show ?thesis by (subst hexDigits.simps) simp
  next
    case False
    have "k \<noteq> 1" using False 1(3) by auto
    with 1(2) obtain j where j: "k = Suc j" "0 < j" by (cases k) auto
    from 1(3) j have "n div 16 < 16 ^ j"
      by (simp add: less_mult_imp_div_less mult.commute)
    with 1(1)[OF False j(2)] have "length (hexDigits (n div 16)) \<le> j" by simp
    with False j show ?thesis by (subst hexDigits.simps) simp
  qed
qed

lemma and_mask128: "v AND mask128 = v mod 2 ^ 128"
proof -
  have "mask128 = mask 128" by (simp add: mask128_def mask_eq_exp_minus_1)
  then have "v AND mask128 = take_bit 128 v" by (simp only: take_bit_eq_mask)
  also have "\<dots> = v mod 2 ^ 128" by (rule take_bit_eq_mod)
  finally show ?thesis .
qed

lemma trim_id: "s \<noteq> [] \<Longrightarrow> \<not> isWhiteSpace (hd s) \<Longrightarrow> \<not> isWhiteSpace (last s) \<Longrightarrow> trim s = s"
proof -
  assume a: "s \<noteq> []" "\<not> isWhiteSpace (hd s)" "\<not> isWhiteSpace (last s)"
  then have "dropWhile isWhiteSpace s = s" by (cases s) auto
  moreover from a have "dropWhile isWhiteSpace (rev s) = rev s"
    by (cases "rev s") (auto simp: last_rev [symmetric] hd_rev)
  ultimately show ?thesis by (simp add: trim_def)
qed

lemma lowerHex_not_ws: "isLowerHex c \<Longrightarrow> \<not> isWhiteSpace c"
  by (auto simp: isLowerHex_def isWhiteSpace_def Let_def)

lemma lowerHex_toLower: "isLowerHex c \<Longrightarrow> toLowerChar c = c"
  by (auto simp: isLowerHex_def toLowerChar_def Let_def)

lemma lowerHex_isHex: "isLowerHex c \<Longrightarrow> isHexDigit c"
  by (auto simp: isLowerHex_def isHexDigit_def digitValue_def Let_def)

lemma toLowerCase_lowerHex: "list_all isLowerHex s \<Longrightarrow> toLowerCase s = s"
  by (induction s) (auto simp: toLowerCase_def lowerHex_toLower)

lemma hexValue_zeros: "hexValue (replicate k CHR ''0'' @ s) = hexValue s"
proof -
  have "foldl (\<lambda>v c. 16 * v + (case digitValue c of Some d \<Rightarrow> d | None \<Rightarrow> 0)) 0 (replicate k CHR ''0'') = 0"
    by (induction k) (simp_all add: digitValue_def)
  then show ?thesis by (simp add: hexValue_def)
qed

lemma zero_digit: "isLowerHex CHR ''0''"
  by (simp add: isLowerHex_def)

lemma bigintToHex16_shape:
  obtains body where "bigintToHex16 v = ''0x'' @ body" "length body = 32"
    "list_all isLowerHex body" "hexValue body = nat (v mod 2 ^ 128)"
proof -
  define n where "n = nat (v mod 2 ^ 128)"
  define s where "s = hexDigits n"
  define body where "body = (if length s < 32 then replicate (32 - length s) CHR ''0'' @ s else s)"
  have nonneg: "0 \<le> v mod 2 ^ 128" by simp
  have "v mod 2 ^ 128 < 2 ^ 128" by simp
  then have "n < 2 ^ 128" unfolding n_def using nonneg by (simp add: nat_less_iff)
  also have "(2::nat) ^ 128 = 16 ^ 32" by simp
  finally have "length s \<le> 32" unfolding s_def by (intro length_hexDigits) simp_all
  then have len: "length body = 32" by (simp add: body_def)
  have low: "list_all isLowerHex body"
    using hexDigits_lower [of n] by (simp add: body_def s_def list_all_iff zero_digit)
  have val: "hexValue body = n"
    by (simp add: body_def s_def hexValue_zeros hexValue_hexDigits)
  have "toString16 (v AND mask128) = s"
    using nonneg by (simp add: toString16_def and_mask128 s_def n_def)
  then have "bigintToHex16 v = ''0x'' @ body"
    by (simp add: bigintToHex16_def Let_def body_def)
  with len low val show ?thesis using that by (simp add: n_def)
qed

lemma hex16ToBigint_body:
  assumes "length body = 32" "list_all isLowerHex body"
  shows "hex16ToBigint (''0x'' @ body) = Inr (int (hexValue body) AND mask128)"
proof -
  from assms(1) have ne: "body \<noteq> []" by auto
  from assms(2) ne have lastlow: "isLowerHex (last body)" by (simp add: list_all_iff)
  have "last (''0x'' @ body) = last body" using ne by simp
  then have "\<not> isWhiteSpace (last (''0x'' @ body))"
    using lastlow by (simp only: lowerHex_not_ws not_False_eq_True)
  moreover have "\<not> isWhiteSpace (hd (''0x'' @ body))" by (simp add: isWhiteSpace_def)
  ultimately have "trim (''0x'' @ body) = ''0x'' @ body"
    by (intro trim_id) simp_all
  moreover have "toLowerCase (''0x'' @ body) = ''0x'' @ body"
    using toLowerCase_lowerHex [OF assms(2)] by (simp add: toLowerCase_def toLowerChar_def)
  moreover have "dropWhile isWhiteSpace (rev body) = rev body"
    using ne lastlow by (cases "rev body") (auto simp: hd_rev [symmetric] lowerHex_not_ws)
  moreover have "list_all isHexDigit body"
    using assms(2) by (simp add: list_all_iff lowerHex_isHex)
  ultimately show ?thesis
    using assms ne by (simp add: hex16ToBigint_def startsWith_def matchesLowerHex_def BigInt_0x_def Let_def)
qed


lemma hex16ToBigint_hexBody:
  "hex16ToBigint hex =
     (let s = hexBody hex
      in if s = [] then Inr 0
         else if \<not> list_all isLowerHex s then Inl (Error ''Invalid hex'')
         else if length s > 32 then Inl (Error ''Too many hex digits for 128-bit'')
         else (case BigInt_0x s of Inl e \<Rightarrow> Inl e | Inr v \<Rightarrow> Inr (v AND mask128)))"
  by (simp add: hex16ToBigint_def hexBody_def Let_def matchesLowerHex_def)

lemma BigInt_0x_lower:
  assumes "s \<noteq> []" "list_all isLowerHex s"
  shows "BigInt_0x s = Inr (int (hexValue s))"
proof -
  from assms have "isLowerHex (last s)" by (simp add: list_all_iff)
  then have "dropWhile isWhiteSpace (rev s) = rev s"
    using assms(1) by (cases "rev s") (auto simp: hd_rev [symmetric] lowerHex_not_ws)
  moreover have "list_all isHexDigit s"
    using assms(2) by (simp add: list_all_iff lowerHex_isHex)
  ultimately show ?thesis using assms(1) by (simp add: BigInt_0x_def Let_def)
qed

lemma digit_le_15: "(case digitValue c of Some d \<Rightarrow> d | None \<Rightarrow> 0) \<le> 15"
  by (auto simp: digitValue_def Let_def)

lemma hexValue_bound: "hexValue s < 16 ^ length s"
proof (induction s rule: rev_induct)
  case Nil
  then show ?case by (simp add: hexValue_def)
next
  case (snoc c s)
  have "hexValue (s @ [c]) \<le> 16 * hexValue s + 15"
    using digit_le_15 [of c] by (simp add: hexValue_snoc)
  also have "\<dots> < 16 * 16 ^ length s" using snoc by simp
  finally show ?case by simp
qed

lemma hexValue_masked:
  assumes "length s \<le> 32"
  shows "int (hexValue s) AND mask128 = int (hexValue s)"
proof -
  have "hexValue s < 16 ^ length s" by (rule hexValue_bound)
  also have "(16::nat) ^ length s \<le> 16 ^ 32" using assms by (intro power_increasing) simp_all
  also have "(16::nat) ^ 32 = 2 ^ 128" by simp
  finally have "int (hexValue s) < 2 ^ 128" by (simp add: nat_less_iff [symmetric] del: of_nat_less_numeral_power_cancel_iff)
  then show ?thesis by (simp add: and_mask128)
qed

lemma hex16ToBigint_cases:
  "hex16ToBigint hex =
     (if hexBody hex = [] then Inr 0
      else if \<not> list_all isLowerHex (hexBody hex) then Inl (Error ''Invalid hex'')
      else if 32 < length (hexBody hex) then Inl (Error ''Too many hex digits for 128-bit'')
      else Inr (int (hexValue (hexBody hex))))"
  by (simp add: hex16ToBigint_hexBody Let_def BigInt_0x_lower hexValue_masked)

lemma of_char_toLowerChar:
  "of_char (toLowerChar c) =
     (let n = of_char c :: nat
      in if (65 \<le> n \<and> n \<le> 90) \<or> (192 \<le> n \<and> n \<le> 222 \<and> n \<noteq> 215) then n + 32 else n)"
  by (simp add: toLowerChar_def Let_def)

lemma ws_toLowerChar: "isWhiteSpace (toLowerChar c) = isWhiteSpace c"
  by (auto simp: isWhiteSpace_def of_char_toLowerChar Let_def)

lemma toLowerChar_idem: "toLowerChar (toLowerChar c) = toLowerChar c"
proof -
  have "of_char (toLowerChar (toLowerChar c)) = (of_char (toLowerChar c) :: nat)"
    by (subst of_char_toLowerChar) (auto simp: of_char_toLowerChar Let_def)
  then show ?thesis by (simp only: of_char_eq_iff)
qed

lemma dropWhile_ws_lower:
  "dropWhile isWhiteSpace (toLowerCase s) = toLowerCase (dropWhile isWhiteSpace s)"
  by (induction s) (simp_all add: toLowerCase_def ws_toLowerChar)

lemma trim_toLowerCase: "trim (toLowerCase s) = toLowerCase (trim s)"
proof -
  have r: "rev (toLowerCase t) = toLowerCase (rev t)" for t
    by (simp add: toLowerCase_def rev_map)
  show ?thesis
    unfolding trim_def by (simp only: dropWhile_ws_lower r)
qed

lemma toLowerCase_idem: "toLowerCase (toLowerCase s) = toLowerCase s"
  by (simp add: toLowerCase_def toLowerChar_idem)

lemma hexBody_toLowerCase: "hexBody (toLowerCase hex) = hexBody hex"
  by (simp add: hexBody_def trim_toLowerCase toLowerCase_idem)

lemma hex16ToBigint_toLowerCase: "hex16ToBigint (toLowerCase hex) = hex16ToBigint hex"
  by (simp add: hex16ToBigint_cases hexBody_toLowerCase)

lemma isHexDigit_not_ws: "isHexDigit c \<Longrightarrow> \<not> isWhiteSpace c"
  by (auto simp: isHexDigit_def digitValue_def isWhiteSpace_def Let_def split: if_splits)

lemma isHexDigit_lower_not_x: "isHexDigit c \<Longrightarrow> toLowerChar c \<noteq> CHR ''x''"
proof
  assume h: "isHexDigit c" and "toLowerChar c = CHR ''x''"
  then have "(of_char (toLowerChar c) :: nat) = 120" by simp
  with h show False
    by (auto simp: isHexDigit_def digitValue_def of_char_toLowerChar Let_def split: if_splits)
qed

lemma trim_hexDigits: "list_all isHexDigit ds \<Longrightarrow> trim ds = ds"
proof (cases "ds = []")
  case True
  then show ?thesis by (simp add: trim_def)
next
  case False
  assume "list_all isHexDigit ds"
  with False have "isHexDigit (hd ds)" "isHexDigit (last ds)" by (simp_all add: list_all_iff)
  with False show ?thesis by (intro trim_id) (simp_all add: isHexDigit_not_ws)
qed

lemma hexBody_digits:
  assumes "list_all isHexDigit ds"
  shows "hexBody ds = toLowerCase ds"
proof -
  have "\<not> startsWith (toLowerCase ds) ''0x''"
  proof (cases ds)
    case Nil
    then show ?thesis by (simp add: startsWith_def toLowerCase_def)
  next
    case (Cons a ds')
    show ?thesis
    proof (cases ds')
      case Nil
      with Cons show ?thesis by (simp add: startsWith_def toLowerCase_def)
    next
      case (Cons b ds'')
      with \<open>ds = a # ds'\<close> assms have "isHexDigit b" by simp
      then have "toLowerChar b \<noteq> CHR ''x''" by (rule isHexDigit_lower_not_x)
      with Cons \<open>ds = a # ds'\<close> show ?thesis by (simp add: startsWith_def toLowerCase_def)
    qed
  qed
  then show ?thesis using assms by (simp add: hexBody_def trim_hexDigits)
qed

lemma hexBody_prefixed:
  assumes "list_all isHexDigit ds"
  shows "hexBody (''0x'' @ ds) = toLowerCase ds"
proof -
  have "trim (''0x'' @ ds) = ''0x'' @ ds"
  proof (cases "ds = []")
    case True
    then show ?thesis by (simp add: trim_def isWhiteSpace_def)
  next
    case False
    with assms have "isHexDigit (last ds)" by (simp add: list_all_iff)
    then have "\<not> isWhiteSpace (last (''0x'' @ ds))" using False by (simp add: isHexDigit_not_ws)
    moreover have "\<not> isWhiteSpace (hd (''0x'' @ ds))" by (simp add: isWhiteSpace_def)
    ultimately show ?thesis by (intro trim_id) simp_all
  qed
  moreover have "toLowerCase (''0x'' @ ds) = ''0x'' @ toLowerCase ds"
    by (simp add: toLowerCase_def toLowerChar_def)
  ultimately show ?thesis by (simp add: hexBody_def startsWith_def)
qed

lemma hex16ToBigint_prefix:
  "list_all isHexDigit ds \<Longrightarrow> hex16ToBigint (''0x'' @ ds) = hex16ToBigint ds"
  by (simp only: hex16ToBigint_cases hexBody_prefixed hexBody_digits)


text \<open>
  C5. For every integer \<open>x\<close>, parsing the text that \<open>bigintToHex16\<close> writes for \<open>x\<close> gives
  \<open>x\<close> modulo \<open>2^128\<close>; for \<open>x\<close> in \<open>[0, 2^128)\<close> the round trip is the identity; and the
  text is always \<open>0x\<close> followed by exactly 32 lowercase hexadecimal digits, the digits of
  \<open>x mod 2^128\<close> padded with zeros on the left.
\<close>

theorem C5_hex16_roundtrip:
  "hex16ToBigint (bigintToHex16 x) = Inr (x mod 2 ^ 128)
   \<and> (0 \<le> x \<and> x < 2 ^ 128 \<longrightarrow> hex16ToBigint (bigintToHex16 x) = Inr x)
   \<and> length (bigintToHex16 x) = 34
   \<and> take 2 (bigintToHex16 x) = ''0x''
   \<and> list_all isLowerHex (drop 2 (bigintToHex16 x))
   \<and> drop 2 (bigintToHex16 x) =
       replicate (32 - length (toString16 (x mod 2 ^ 128))) CHR ''0'' @ toString16 (x mod 2 ^ 128)"
proof -
  obtain body where b: "bigintToHex16 x = ''0x'' @ body" "length body = 32"
    "list_all isLowerHex body" "hexValue body = nat (x mod 2 ^ 128)"
    by (rule bigintToHex16_shape)
  have "hex16ToBigint (bigintToHex16 x) = Inr (int (hexValue body) AND mask128)"
    unfolding b(1) by (rule hex16ToBigint_body [OF b(2,3)])
  also have "int (hexValue body) = x mod 2 ^ 128" using b(4) by simp
  also have "(x mod 2 ^ 128) AND mask128 = x mod 2 ^ 128" by (simp add: and_mask128)
  finally have rt: "hex16ToBigint (bigintToHex16 x) = Inr (x mod 2 ^ 128)" .
  have id: "0 \<le> x \<and> x < 2 ^ 128 \<longrightarrow> hex16ToBigint (bigintToHex16 x) = Inr x"
    unfolding rt by simp
  define s where "s = toString16 (x mod 2 ^ 128)"
  have d: "drop 2 (bigintToHex16 x) = body" by (simp add: b(1))
  have "body = (if length s < 32 then replicate (32 - length s) CHR ''0'' @ s else s)"
    unfolding d [symmetric] s_def by (simp add: bigintToHex16_def Let_def and_mask128)
  moreover from this b(2) have "\<not> length s < 32 \<longrightarrow> length s = 32" by (simp split: if_splits)
  ultimately have pad: "body = replicate (32 - length s) CHR ''0'' @ s" by (simp split: if_splits)
  have len: "length (bigintToHex16 x) = 34" by (simp add: b(1,2))
  have pre: "take 2 (bigintToHex16 x) = ''0x''" by (simp add: b(1))
  from rt id len pre b(3) pad show ?thesis unfolding d s_def by blast
qed

theorem C5_hex16_roundtrip_witness:
  "(0::int) \<le> 255 \<and> (255::int) < 2 ^ 128 \<and> hex16ToBigint (bigintToHex16 255) = Inr 255"
proof -
  have h: "(0::int) \<le> 255 \<and> (255::int) < 2 ^ 128" by simp
  from C5_hex16_roundtrip [of 255] h show ?thesis by blast
qed

text \<open>
  C9, as stated, fails: white space around the digits is trimmed before anything is
  checked, so an input that contains a character that is no hexadecimal digit (a space)
  is accepted.
\<close>

theorem C9_counterexample:
  "\<not> isHexDigit (hd '' 1'') \<and> hex16ToBigint '' 1'' = Inr 1"
  by (simp add: hex16ToBigint_def trim_def isWhiteSpace_def toLowerCase_def toLowerChar_def
      startsWith_def matchesLowerHex_def isLowerHex_def BigInt_0x_def isHexDigit_def
      digitValue_def hexValue_def mask128_def)

text \<open>
  C9, amended. \<open>hex16ToBigint\<close> trims the white space around its input and reads it in
  lowercase (so the digits are case-insensitive), and removes an optional prefix \<open>0x\<close>.
  When nothing remains (so for the empty string) it returns zero; when what remains has
  a character outside \<open>0-9a-f\<close> it raises \<open>Invalid hex\<close> (InvalidHexFormat); when what
  remains is more than 32 hexadecimal digits it raises
  \<open>Too many hex digits for 128-bit\<close> (TooManyDigits); otherwise it returns the value of the
  digits.
\<close>

theorem C9_hex16ToBigint_parse:
  "hex16ToBigint [] = Inr 0
   \<and> (hexBody hex = [] \<longrightarrow> hex16ToBigint hex = Inr 0)
   \<and> (hexBody hex \<noteq> [] \<and> \<not> list_all isLowerHex (hexBody hex)
        \<longrightarrow> hex16ToBigint hex = Inl (Error ''Invalid hex''))
   \<and> (list_all isLowerHex (hexBody hex) \<and> 32 < length (hexBody hex)
        \<longrightarrow> hex16ToBigint hex = Inl (Error ''Too many hex digits for 128-bit''))
   \<and> (hexBody hex \<noteq> [] \<and> list_all isLowerHex (hexBody hex) \<and> length (hexBody hex) \<le> 32
        \<longrightarrow> hex16ToBigint hex = Inr (int (hexValue (hexBody hex))))
   \<and> hex16ToBigint (toLowerCase hex) = hex16ToBigint hex
   \<and> (list_all isHexDigit ds \<longrightarrow> hex16ToBigint (''0x'' @ ds) = hex16ToBigint ds)"
proof -
  have e: "hexBody [] = []"
    by (simp add: hexBody_def trim_def toLowerCase_def startsWith_def)
  have c1: "hex16ToBigint [] = Inr 0" by (simp add: hex16ToBigint_cases e)
  have c2: "hexBody hex = [] \<longrightarrow> hex16ToBigint hex = Inr 0"
    by (simp add: hex16ToBigint_cases)
  have c3: "hexBody hex \<noteq> [] \<and> \<not> list_all isLowerHex (hexBody hex)
        \<longrightarrow> hex16ToBigint hex = Inl (Error ''Invalid hex'')"
    by (simp add: hex16ToBigint_cases)
  have c4: "list_all isLowerHex (hexBody hex) \<and> 32 < length (hexBody hex)
        \<longrightarrow> hex16ToBigint hex = Inl (Error ''Too many hex digits for 128-bit'')"
    by (auto simp add: hex16ToBigint_cases)
  have c5: "hexBody hex \<noteq> [] \<and> list_all isLowerHex (hexBody hex) \<and> length (hexBody hex) \<le> 32
        \<longrightarrow> hex16ToBigint hex = Inr (int (hexValue (hexBody hex)))"
    by (simp add: hex16ToBigint_cases)
  have c6: "hex16ToBigint (toLowerCase hex) = hex16ToBigint hex"
    by (rule hex16ToBigint_toLowerCase)
  have c7: "list_all isHexDigit ds \<longrightarrow> hex16ToBigint (''0x'' @ ds) = hex16ToBigint ds"
    using hex16ToBigint_prefix [of ds] by blast
  from c1 c2 c3 c4 c5 c6 c7 show ?thesis by blast
qed

theorem C9_hex16ToBigint_parse_witness:
  "hex16ToBigint ''0xg1'' = Inl (Error ''Invalid hex'')
   \<and> hex16ToBigint ''0x000000000000000000000000000000001''
       = Inl (Error ''Too many hex digits for 128-bit'')
   \<and> hex16ToBigint '' 0x1f'' = Inr 31
   \<and> hex16ToBigint ''0x'' = Inr 0
   \<and> hex16ToBigint ''0xfF'' = hex16ToBigint ''fF''"
proof -
  have ev: "hexBody ''0xg1'' = ''g1''" "hexBody ''0x000000000000000000000000000000001'' = ''000000000000000000000000000000001''"
    "hexBody '' 0x1f'' = ''1f''" "hexBody ''0x'' = []"
    by (simp_all add: hexBody_def trim_def isWhiteSpace_def toLowerCase_def toLowerChar_def
        startsWith_def)
  have h1: "hexBody ''0xg1'' \<noteq> [] \<and> \<not> list_all isLowerHex (hexBody ''0xg1'')"
    by (simp add: ev isLowerHex_def)
  have h2: "list_all isLowerHex (hexBody ''0x000000000000000000000000000000001'')
      \<and> 32 < length (hexBody ''0x000000000000000000000000000000001'')"
    by (simp add: ev isLowerHex_def)
  have h3: "hexBody '' 0x1f'' \<noteq> [] \<and> list_all isLowerHex (hexBody '' 0x1f'')
      \<and> length (hexBody '' 0x1f'') \<le> 32"
    by (simp add: ev isLowerHex_def)
  have v3: "int (hexValue (hexBody '' 0x1f'')) = 31"
    by (simp add: ev hexValue_def digitValue_def)
  have h4: "hexBody ''0x'' = []" by (simp add: ev)
  have h5: "list_all isHexDigit ''fF''" by (simp add: isHexDigit_def digitValue_def)
  from C9_hex16ToBigint_parse [of "''0xg1''"] h1
  have "hex16ToBigint ''0xg1'' = Inl (Error ''Invalid hex'')" by blast
  moreover from C9_hex16ToBigint_parse [of "''0x000000000000000000000000000000001''"] h2
  have "hex16ToBigint ''0x000000000000000000000000000000001''
       = Inl (Error ''Too many hex digits for 128-bit'')" by blast
  moreover from C9_hex16ToBigint_parse [of "'' 0x1f''"] h3 v3
  have "hex16ToBigint '' 0x1f'' = Inr 31" by metis
  moreover from C9_hex16ToBigint_parse [of "''0x''"] h4
  have "hex16ToBigint ''0x'' = Inr 0" by blast
  moreover from C9_hex16ToBigint_parse [of _ "''fF''"] h5
  have "hex16ToBigint ''0xfF'' = hex16ToBigint ''fF''" by simp
  ultimately show ?thesis by blast
qed

section \<open>Properties of the key and integer conversions\<close>

lemma byte_and_255: "(word_of_int (v AND 255) :: byte) = word_of_int v"
proof -
  have "(255::int) = mask 8" by (simp add: mask_eq_exp_minus_1)
  then have "v AND 255 = take_bit 8 v" by (simp only: take_bit_eq_mask)
  then show ?thesis by (simp add: wi_bintr)
qed

lemma bigintToKey16_loop_eq:
  "n \<le> length out \<Longrightarrow>
   bigintToKey16_loop n v out =
     map (\<lambda>i. word_of_int (drop_bit (8 * (n - 1 - i)) v)) [0..<n] @ drop n out"
proof (induction n arbitrary: v out)
  case 0
  then show ?case by simp
next
  case (Suc n)
  let ?out = "out[n := word_of_int (v AND 255)]"
  from Suc.prems have n: "n < length out" by simp
  then have "n \<le> length ?out" by simp
  from Suc.IH [OF this, of "drop_bit 8 v"]
  have "bigintToKey16_loop (Suc n) v out =
        map (\<lambda>i. word_of_int (drop_bit (8 * (n - 1 - i)) (drop_bit 8 v))) [0..<n] @ drop n ?out"
    by simp
  also have "drop n ?out = word_of_int v # drop (Suc n) out"
    using n by (simp add: byte_and_255 drop_update_cancel Cons_nth_drop_Suc [symmetric] upd_conv_take_nth_drop)
  also have "map (\<lambda>i. word_of_int (drop_bit (8 * (n - 1 - i)) (drop_bit 8 v)) :: byte) [0..<n]
           = map (\<lambda>i. word_of_int (drop_bit (8 * (Suc n - 1 - i)) v)) [0..<n]"
  proof (rule map_cong [OF refl])
    fix i assume "i \<in> set [0..<n]"
    then have "i < n" by simp
    then have "8 * (n - 1 - i) + 8 = 8 * (Suc n - 1 - i)" by simp
    then show "(word_of_int (drop_bit (8 * (n - 1 - i)) (drop_bit 8 v)) :: byte)
             = word_of_int (drop_bit (8 * (Suc n - 1 - i)) v)"
      by (simp add: drop_bit_drop_bit add.commute)
  qed
  finally show ?case by simp
qed

lemma bigintToKey16_eq:
  "bigintToKey16 v = map (\<lambda>i. word_of_int (drop_bit (8 * (15 - i)) v)) [0..<16]"
  unfolding bigintToKey16_def by (subst bigintToKey16_loop_eq) simp_all

lemma byte_of_masked:
  assumes "i < 16"
  shows "(word_of_int ((v mod 2 ^ 128) div 256 ^ (15 - i)) :: byte)
       = word_of_int (drop_bit (8 * (15 - i)) v)"
proof -
  let ?k = "8 * (15 - i)"
  have p: "(256::int) ^ (15 - i) = 2 ^ ?k" by (simp add: power_mult)
  have m: "min 8 (128 - ?k) = 8" by simp
  have "(v mod 2 ^ 128) div 256 ^ (15 - i) = drop_bit ?k (take_bit 128 v)"
    unfolding p by (simp only: take_bit_eq_mod drop_bit_eq_div)
  also have "\<dots> = take_bit (128 - ?k) (drop_bit ?k v)" by (rule drop_bit_take_bit)
  finally have A: "(v mod 2 ^ 128) div 256 ^ (15 - i) = take_bit (128 - ?k) (drop_bit ?k v)" .
  have "take_bit 8 ((v mod 2 ^ 128) div 256 ^ (15 - i)) = take_bit 8 (drop_bit ?k v)"
    unfolding A take_bit_take_bit m ..
  then show ?thesis by (subst word_of_int_eq_iff) simp
qed

lemma bigintToKey16_bigEndian: "bigintToKey16 v = bigEndian16 (v mod 2 ^ 128)"
proof -
  have "map (\<lambda>i. word_of_int (drop_bit (8 * (15 - i)) v) :: byte) [0..<16]
      = map (\<lambda>i. word_of_int ((v mod 2 ^ 128) div 256 ^ (15 - i))) [0..<16]"
  proof (rule map_cong [OF refl])
    fix i :: nat assume "i \<in> set [0..<16]"
    then have "i < 16" by simp
    then show "(word_of_int (drop_bit (8 * (15 - i)) v) :: byte)
             = word_of_int ((v mod 2 ^ 128) div 256 ^ (15 - i))"
      by (rule byte_of_masked [symmetric])
  qed
  then show ?thesis unfolding bigintToKey16_eq bigEndian16_def .
qed

lemma key16ToBigint_snoc: "key16ToBigint (k @ [b]) = push_bit 8 (key16ToBigint k) OR uint b"
  by (simp add: key16ToBigint_def)

lemma key16ToBigint_nonneg: "0 \<le> key16ToBigint k"
  by (induction k rule: rev_induct) (simp_all add: key16ToBigint_snoc, simp add: key16ToBigint_def)

lemma drop_bit_8_uint: "drop_bit 8 (uint (b :: byte)) = 0"
proof -
  have "uint b < 2 ^ 8" using uint_lt2p [of b] by simp
  moreover have "0 \<le> uint b" by simp
  ultimately show ?thesis by (simp add: drop_bit_eq_div)
qed

lemma drop_snoc_key: "drop_bit 8 (push_bit 8 K OR uint (b :: byte)) = (K :: int)"
  by (simp add: drop_bit_or drop_bit_8_uint drop_bit_push_bit)

lemma low_snoc_key: "(word_of_int (push_bit 8 K OR uint (b :: byte)) :: byte) = b"
proof -
  have "(word_of_int (push_bit 8 K OR uint b) :: byte) = word_of_int (uint b)"
    by (subst word_of_int_eq_iff) (simp add: take_bit_push_bit)
  then show ?thesis by simp
qed

lemma byte_of_key16ToBigint:
  "i < length k \<Longrightarrow>
   (word_of_int (drop_bit (8 * (length k - 1 - i)) (key16ToBigint k)) :: byte) = k ! i"
proof (induction k rule: rev_induct)
  case Nil
  then show ?case by simp
next
  case (snoc b k)
  show ?case
  proof (cases "i < length k")
    case True
    then have e: "8 * (length (k @ [b]) - 1 - i) = 8 * (length k - 1 - i) + 8" by simp
    have "drop_bit (8 * (length (k @ [b]) - 1 - i)) (key16ToBigint (k @ [b]))
        = drop_bit (8 * (length k - 1 - i)) (key16ToBigint k)"
      unfolding e key16ToBigint_snoc
      by (simp only: drop_bit_drop_bit [symmetric] drop_snoc_key)
    with snoc.IH [OF True] True show ?thesis by (simp add: nth_append)
  next
    case False
    with snoc.prems have "i = length k" by simp
    then show ?thesis by (simp add: key16ToBigint_snoc low_snoc_key)
  qed
qed

lemma bigintToKey16_key16ToBigint:
  assumes "length k = 16"
  shows "bigintToKey16 (key16ToBigint k) = k"
proof (rule nth_equalityI)
  show "length (bigintToKey16 (key16ToBigint k)) = length k"
    using assms by (simp add: bigintToKey16_eq)
next
  fix i assume "i < length (bigintToKey16 (key16ToBigint k))"
  then have i: "i < 16" by (simp add: bigintToKey16_eq)
  then have "bigintToKey16 (key16ToBigint k) ! i
           = word_of_int (drop_bit (8 * (15 - i)) (key16ToBigint k))"
    unfolding bigintToKey16_eq by (simp del: upt_Suc)
  also have "\<dots> = k ! i"
    using byte_of_key16ToBigint [of i k] i assms by simp
  finally show "bigintToKey16 (key16ToBigint k) ! i = k ! i" .
qed

text \<open>
  C10. \<open>bigintToKey16\<close> has no failing branch: for every \<open>v\<close> (so for every non-negative
  one) it returns sixteen bytes, the big-endian encoding of \<open>v mod 2^128\<close>, and the bits of
  \<open>v\<close> from bit 128 on are dropped silently. Hence
  \<open>bigintToKey16 (key16ToBigint k) = k\<close> for every array \<open>k\<close> of 16 bytes.
\<close>

theorem C10_bigintToKey16:
  "bigintToKey16 v = bigEndian16 (v mod 2 ^ 128)
   \<and> length (bigintToKey16 v) = 16
   \<and> bigintToKey16 (v + 2 ^ 128) = bigintToKey16 v
   \<and> (length k = 16 \<longrightarrow> bigintToKey16 (key16ToBigint k) = k)"
proof -
  have "bigintToKey16 (v + 2 ^ 128) = bigintToKey16 v"
    by (simp only: bigintToKey16_bigEndian mod_add_self2)
  moreover have "length (bigintToKey16 v) = 16" by (simp add: bigintToKey16_eq)
  ultimately show ?thesis
    using bigintToKey16_bigEndian [of v] bigintToKey16_key16ToBigint [of k] by blast
qed

theorem C10_bigintToKey16_witness:
  "length [0, 1, 2, 3, 4, 5, 6, 7, 8, 9, 10, 11, 12, 13, 14, 255 :: byte] = 16
   \<and> bigintToKey16 (key16ToBigint [0, 1, 2, 3, 4, 5, 6, 7, 8, 9, 10, 11, 12, 13, 14, 255])
       = [0, 1, 2, 3, 4, 5, 6, 7, 8, 9, 10, 11, 12, 13, 14, 255]"
proof -
  have h: "length [0, 1, 2, 3, 4, 5, 6, 7, 8, 9, 10, 11, 12, 13, 14, 255 :: byte] = 16" by simp
  from C10_bigintToKey16 [of _ "[0, 1, 2, 3, 4, 5, 6, 7, 8, 9, 10, 11, 12, 13, 14, 255]"] h
  show ?thesis by blast
qed

section \<open>Properties of the symmetric cipher module\<close>

lemma unat_byte_lt: "unat (x :: byte) < 256"
  by (rule order_less_le_trans [OF unsigned_less]) simp

lemma digitChar_0: "digitChar 0 = CHR ''0''"
proof -
  have "(of_char (digitChar 0) :: nat) = of_char CHR ''0''" by (simp add: of_char_digitChar)
  then show ?thesis by (simp only: of_char_eq_iff)
qed

lemma byteHex_digits: "byteHex x = [digitChar (unat x div 16), digitChar (unat x mod 16)]"
proof -
  have lt: "unat x < 256" by (rule unat_byte_lt)
  have u: "nat (uint x) = unat x" by simp
  have nn: "\<not> uint x < 0" by simp
  show ?thesis
  proof (cases "unat x < 16")
    case True
    then have "hexDigits (unat x) = [digitChar (unat x)]" by (subst hexDigits.simps) simp
    with True show ?thesis
      by (simp add: byteHex_def toString16_def padStart2_def nn u digitChar_0 [symmetric] del: nat_uint_eq)
  next
    case False
    from lt have d: "unat x div 16 < 16" by simp
    have "hexDigits (unat x) = hexDigits (unat x div 16) @ [digitChar (unat x mod 16)]"
      using False by (subst hexDigits.simps) simp
    also have "hexDigits (unat x div 16) = [digitChar (unat x div 16)]"
      using d by (subst hexDigits.simps) simp
    finally show ?thesis
      by (simp add: byteHex_def toString16_def padStart2_def nn u del: nat_uint_eq)
  qed
qed

lemma length_byteHex: "length (byteHex x) = 2"
  by (simp add: byteHex_digits)

lemma isHexDigit_digitChar: "d < 16 \<Longrightarrow> isHexDigit (digitChar d)"
  by (simp add: isHexDigit_def digitValue_digitChar)

lemma digitChar_not_special:
  assumes "d < 16"
  shows "\<not> isWhiteSpace (digitChar d)" "digitChar d \<noteq> CHR ''-''" "digitChar d \<noteq> CHR ''+''"
    "digitChar d \<noteq> CHR ''x''" "digitChar d \<noteq> CHR ''X''"
proof -
  have l: "isLowerHex (digitChar d)" using assms by (rule isLowerHex_digitChar)
  then show "\<not> isWhiteSpace (digitChar d)" by (rule lowerHex_not_ws)
  from l show "digitChar d \<noteq> CHR ''-''" "digitChar d \<noteq> CHR ''+''"
    "digitChar d \<noteq> CHR ''x''" "digitChar d \<noteq> CHR ''X''"
    by (auto simp: isLowerHex_def Let_def)
qed

lemma parseInt16_two_digits:
  assumes "a < 16" "b < 16"
  shows "parseInt16 [digitChar a, digitChar b] = Some (int (16 * a + b))"
  using assms digitChar_not_special [of a] digitChar_not_special [of b]
  by (simp add: parseInt16_def startsWith_def isHexDigit_digitChar hexValue_def
      digitValue_digitChar Let_def)

lemma toUint8_byteHex: "toUint8 (parseInt16 (byteHex x)) = x"
proof -
  have lt: "unat x < 256" by (rule unat_byte_lt)
  then have "unat x div 16 < 16" "unat x mod 16 < 16" by simp_all
  then have "parseInt16 (byteHex x) = Some (int (16 * (unat x div 16) + unat x mod 16))"
    unfolding byteHex_digits by (rule parseInt16_two_digits)
  also have "16 * (unat x div 16) + unat x mod 16 = unat x" by simp
  finally show ?thesis by (simp add: toUint8_def)
qed

lemma drop_concat_byteHex:
  "i \<le> length b \<Longrightarrow> drop (i * 2) (concat (map byteHex b)) = concat (map byteHex (drop i b))"
proof (induction b arbitrary: i)
  case Nil
  then show ?case by simp
next
  case (Cons x b)
  show ?case
  proof (cases i)
    case 0
    then show ?thesis by simp
  next
    case (Suc j)
    with Cons.prems have "j \<le> length b" by simp
    from Cons.IH [OF this] Suc show ?thesis by (simp add: length_byteHex)
  qed
qed

lemma substr_concat_byteHex:
  assumes "i < length b"
  shows "substr (concat (map byteHex b)) (i * 2) 2 = byteHex (b ! i)"
proof -
  from assms have "drop i b = b ! i # drop (Suc i) b" by (simp add: Cons_nth_drop_Suc)
  with assms show ?thesis
    by (simp add: substr_def drop_concat_byteHex length_byteHex)
qed


lemma hexPairs_concat_byteHex: "hexPairs (concat (map byteHex b)) (length b) = b"
proof (rule nth_equalityI)
  show "length (hexPairs (concat (map byteHex b)) (length b)) = length b"
    by (simp add: hexPairs_def)
next
  fix i assume "i < length (hexPairs (concat (map byteHex b)) (length b))"
  then have i: "i < length b" by (simp add: hexPairs_def)
  then show "hexPairs (concat (map byteHex b)) (length b) ! i = b ! i"
    by (simp add: hexPairs_def substr_concat_byteHex toUint8_byteHex)
qed






lemmas io_defs = bind_io_def return_io_def throw_io_def emit_def catch_io_def
  exportKey_io_def encrypt_io_def decrypt_io_def













lemma decrypt_v1_short:
  "length (hexToBytes_v1 packed) < 12 \<Longrightarrow>
   decryptUtf8AesGcmPacked_v1 P packed key = (Inl (Error ''cipher too short''), [])"
  by (simp add: decryptUtf8AesGcmPacked_v1_def io_defs Let_def)

lemma decrypt_v3_short:
  assumes "hexToBytes packed = Inr data" "8 * length data < 96 + t"
  shows "decryptUtf8AesGcmPacked_v3 P packed key aad t =
     decrypt_failed (Error ''cipher too short (missing IV or tag)'')"
  using assms by (simp add: decryptUtf8AesGcmPacked_v3_def io_defs split: prod.splits)

lemma decrypt_failed_shape:
  "isl (fst (decrypt_failed e)) \<and> filter is_decrypt_call (snd (decrypt_failed e)) = []"
  by (simp add: decrypt_failed_def io_defs)

lemma decrypt_v2_short:
  assumes "hexToBytes packed = Inr data" "8 * length data < 96 + t"
  shows "isl (fst (decryptUtf8AesGcmPacked_v2 P packed key aad t))
     \<and> filter is_decrypt_call (snd (decryptUtf8AesGcmPacked_v2 P packed key aad t)) = []"
  using assms
  by (cases "extractable key")
     (simp_all add: decryptUtf8AesGcmPacked_v2_def printKeyHex_def subtle_exportKey_def
        decrypt_failed_def io_defs)


lemma decrypt_v1_fails:
  assumes "12 \<le> length (hexToBytes_v1 packed)"
    "gcm_decrypt P (material key) (take 12 (hexToBytes_v1 packed)) None 128
       (drop 12 (hexToBytes_v1 packed)) = Inl e"
  shows "fst (decryptUtf8AesGcmPacked_v1 P packed key) = Inl e"
  using assms by (simp add: decryptUtf8AesGcmPacked_v1_def io_defs Let_def)

lemma decrypt_v3_fails:
  assumes "hexToBytes packed = Inr data" "\<not> 8 * length data < 96 + t"
    "gcm_decrypt P (material key) (take 12 data) aad t (drop 12 data) = Inl e"
  shows "fst (decryptUtf8AesGcmPacked_v3 P packed key aad t) = Inl (Error (decrypt_failed_message e))"
  using assms by (simp add: decryptUtf8AesGcmPacked_v3_def decrypt_failed_def io_defs Let_def)

lemma decrypt_v2_fails:
  assumes "hexToBytes packed = Inr data" "\<not> 8 * length data < 96 + t"
    "gcm_decrypt P (material key) (take 12 data) aad t (drop 12 data) = Inl e" "extractable key"
  shows "fst (decryptUtf8AesGcmPacked_v2 P packed key aad t) = Inl (Error (decrypt_failed_message e))"
  using assms
  by (simp add: decryptUtf8AesGcmPacked_v2_def printKeyHex_def subtle_exportKey_def
      decrypt_failed_def io_defs Let_def)


lemma hexToBytes_packed_bad: "hexToBytes packed_bad = Inr data_bad"
  by code_simp

lemma hexToBytes_v1_packed_bad: "hexToBytes_v1 packed_bad = data_bad"
  by code_simp

lemma toy_rejects_data_bad:
  "gcm_decrypt toy_platform (material key_a) (take 12 data_bad) None 128 (drop 12 data_bad)
     = Inl (Native ''OperationError'' [])"
  by code_simp


lemma printKeyHex_extractable:
  "printKeyHex \<lparr>material = raw, extractable = True\<rparr> =
     (Inr (), [SubtleExportKey \<lparr>material = raw, extractable = True\<rparr>,
               ConsoleLog [VStr ''Key (hex):'', VStr (bufToHex raw)]])"
  by (simp add: printKeyHex_def subtle_exportKey_def io_defs)

lemma hexPairs_bufToHex: "hexPairs (bufToHex raw) (length raw) = raw"
  by (simp add: bufToHex_def hexPairs_concat_byteHex)


text \<open>
  C2, as stated, fails. The first copy rejects a packed value only when it decodes to
  fewer than 12 bytes: a value of 12 bytes is handed to the platform, whose exception
  comes back. In the later copies the error \<open>cipher too short\<close> is thrown inside the
  \<open>try\<close> block, so the caller receives the error of the handler instead.
\<close>

theorem C2_counterexample:
  "length (hexToBytes_v1 ''0x000000000000000000000000'') < 28
   \<and> decryptUtf8AesGcmPacked_v1 toy_platform ''0x000000000000000000000000'' key_a
       = (Inl (Native ''OperationError'' []),
          [SubtleDecrypt key_a [0, 0, 0, 0, 0, 0, 0, 0, 0, 0, 0, 0] None 128 []])
   \<and> hexToBytes ''0x00'' = Inr [0]
   \<and> fst (decryptUtf8AesGcmPacked_v3 toy_platform ''0x00'' key_a None 128)
       = Inl (Error ''AES-GCM decrypt failed: Error (likely key/IV/tag/AAD mismatch)'')"
  by code_simp

text \<open>
  C2, amended. A packed value that decodes to fewer bytes than the threshold makes
  \<open>decryptUtf8AesGcmPacked\<close> fail without a call to the platform's decryption. The
  threshold is 12 bytes (the IV) in the first copy of \<open>aes.ts\<close>, which then raises
  \<open>cipher too short\<close>, and \<open>12 + tagLengthBits / 8\<close> bytes in the later copies, that is 28
  bytes for the default tag of 128 bits.
\<close>

theorem C2_short_ciphertext:
  "(length (hexToBytes_v1 packed) < 12 \<longrightarrow>
      decryptUtf8AesGcmPacked_v1 P packed key = (Inl (Error ''cipher too short''), []))
   \<and> (hexToBytes packed = Inr data \<and> 8 * length data < 96 + tagLengthBits \<longrightarrow>
        isl (fst (decryptUtf8AesGcmPacked_v2 P packed key aad tagLengthBits))
        \<and> filter is_decrypt_call (snd (decryptUtf8AesGcmPacked_v2 P packed key aad tagLengthBits)) = []
        \<and> isl (fst (decryptUtf8AesGcmPacked_v3 P packed key aad tagLengthBits))
        \<and> filter is_decrypt_call (snd (decryptUtf8AesGcmPacked_v3 P packed key aad tagLengthBits)) = [])
   \<and> (hexToBytes packed = Inr data \<and> length data < 28 \<longrightarrow>
        isl (fst (decryptUtf8AesGcmPacked_v2 P packed key None 128))
        \<and> filter is_decrypt_call (snd (decryptUtf8AesGcmPacked_v2 P packed key None 128)) = []
        \<and> isl (fst (decryptUtf8AesGcmPacked_v3 P packed key None 128))
        \<and> filter is_decrypt_call (snd (decryptUtf8AesGcmPacked_v3 P packed key None 128)) = [])"
proof -
  have a: "length (hexToBytes_v1 packed) < 12 \<longrightarrow>
      decryptUtf8AesGcmPacked_v1 P packed key = (Inl (Error ''cipher too short''), [])"
    by (simp add: decrypt_v1_short)
  have b: "hexToBytes packed = Inr data \<and> 8 * length data < 96 + t \<longrightarrow>
        isl (fst (decryptUtf8AesGcmPacked_v2 P packed key ad t))
        \<and> filter is_decrypt_call (snd (decryptUtf8AesGcmPacked_v2 P packed key ad t)) = []
        \<and> isl (fst (decryptUtf8AesGcmPacked_v3 P packed key ad t))
        \<and> filter is_decrypt_call (snd (decryptUtf8AesGcmPacked_v3 P packed key ad t)) = []"
    for t ad
    using decrypt_v2_short [of packed data t P key ad] decrypt_v3_short [of packed data t P key ad]
      decrypt_failed_shape [of "Error ''cipher too short (missing IV or tag)''"]
    by simp
  have c: "length data < 28 \<Longrightarrow> 8 * length data < 96 + 128" by simp
  from a b [of tagLengthBits aad] b [of 128 None] c show ?thesis by blast
qed

theorem C2_short_ciphertext_witness:
  "length (hexToBytes_v1 ''0x0000'') < 12
   \<and> decryptUtf8AesGcmPacked_v1 toy_platform ''0x0000'' key_a = (Inl (Error ''cipher too short''), [])
   \<and> hexToBytes ''0x0000'' = Inr [0, 0]
   \<and> isl (fst (decryptUtf8AesGcmPacked_v2 toy_platform ''0x0000'' key_a None 128))
   \<and> filter is_decrypt_call (snd (decryptUtf8AesGcmPacked_v2 toy_platform ''0x0000'' key_a None 128)) = []
   \<and> isl (fst (decryptUtf8AesGcmPacked_v3 toy_platform ''0x0000'' key_a None 128))
   \<and> filter is_decrypt_call (snd (decryptUtf8AesGcmPacked_v3 toy_platform ''0x0000'' key_a None 128)) = []"
proof -
  have h1: "length (hexToBytes_v1 ''0x0000'') < 12" by code_simp
  have h2: "hexToBytes ''0x0000'' = Inr [0, 0]" by code_simp
  have h3: "8 * length [0, 0 :: byte] < 96 + (128 :: nat)" "length [0, 0 :: byte] < 28" by simp_all
  from C2_short_ciphertext [of "''0x0000''" toy_platform key_a "[0, 0]" 128 None] h1 h2 h3
  show ?thesis by blast
qed

text \<open>
  C3, as stated, fails. The first copy has no handler, so the exception of the platform
  reaches the caller as it is; the later copies throw a new \<open>Error\<close> whose message
  quotes the name of the platform's exception.
\<close>

theorem C3_counterexample:
  "gcm_decrypt toy_platform (material key_a) (take 12 data_bad) None 128 (drop 12 data_bad)
     = Inl (Native ''OperationError'' [])
   \<and> hexToBytes_v1 packed_bad = data_bad
   \<and> fst (decryptUtf8AesGcmPacked_v1 toy_platform packed_bad key_a)
       = Inl (Native ''OperationError'' [])
   \<and> hexToBytes packed_bad = Inr data_bad
   \<and> fst (decryptUtf8AesGcmPacked_v3 toy_platform packed_bad key_a None 128)
       = Inl (Error ''AES-GCM decrypt failed: OperationError (likely key/IV/tag/AAD mismatch)'')"
proof -
  have l: "12 \<le> length (hexToBytes_v1 packed_bad)" "\<not> 8 * length data_bad < 96 + (128::nat)"
    by (simp_all add: hexToBytes_v1_packed_bad data_bad_def)
  have r: "gcm_decrypt toy_platform (material key_a) (take 12 (hexToBytes_v1 packed_bad)) None 128
       (drop 12 (hexToBytes_v1 packed_bad)) = Inl (Native ''OperationError'' [])"
    unfolding hexToBytes_v1_packed_bad by (rule toy_rejects_data_bad)
  have m: "decrypt_failed_message (Native ''OperationError'' [])
      = ''AES-GCM decrypt failed: OperationError (likely key/IV/tag/AAD mismatch)''"
    by (simp add: decrypt_failed_message_def)
  from decrypt_v1_fails [OF l(1) r]
    decrypt_v3_fails [OF hexToBytes_packed_bad l(2) toy_rejects_data_bad]
    toy_rejects_data_bad hexToBytes_v1_packed_bad hexToBytes_packed_bad m
  show ?thesis by simp
qed

text \<open>
  C3, amended. When the platform's decryption fails with an exception \<open>e\<close>: the first
  copy of \<open>aes.ts\<close> lets \<open>e\<close> through; the later copies raise a new \<open>Error\<close>, never \<open>e\<close>
  itself, whose message is \<open>AES-GCM decrypt failed: \<close> followed by the name of \<open>e\<close> and
  \<open> (likely key/IV/tag/AAD mismatch)\<close>, without the name when \<open>e\<close> has none. Every
  failure that the platform reports under one name (\<open>OperationError\<close> for a wrong key, a
  changed ciphertext, IV, tag or associated data) therefore reaches the caller as one
  and the same error. In the second copy this needs an extractable key, since the key
  is exported and printed before anything else.
\<close>

theorem C3_decrypt_failure:
  "(12 \<le> length (hexToBytes_v1 packed)
      \<and> gcm_decrypt P (material key) (take 12 (hexToBytes_v1 packed)) None 128
           (drop 12 (hexToBytes_v1 packed)) = Inl e
      \<longrightarrow> fst (decryptUtf8AesGcmPacked_v1 P packed key) = Inl e)
   \<and> (hexToBytes packed = Inr data \<and> \<not> 8 * length data < 96 + tagLengthBits
      \<and> gcm_decrypt P (material key) (take 12 data) aad tagLengthBits (drop 12 data) = Inl e
      \<longrightarrow> fst (decryptUtf8AesGcmPacked_v3 P packed key aad tagLengthBits)
             = Inl (Error (decrypt_failed_message e))
          \<and> (extractable key \<longrightarrow>
               fst (decryptUtf8AesGcmPacked_v2 P packed key aad tagLengthBits)
                 = Inl (Error (decrypt_failed_message e))))
   \<and> decrypt_failed_message (Native ''OperationError'' msg)
       = ''AES-GCM decrypt failed: OperationError (likely key/IV/tag/AAD mismatch)''
   \<and> decrypt_failed_message (Native [] msg)
       = ''AES-GCM decrypt failed (likely key/IV/tag/AAD mismatch)''"
proof -
  have a: "12 \<le> length (hexToBytes_v1 packed)
      \<and> gcm_decrypt P (material key) (take 12 (hexToBytes_v1 packed)) None 128
           (drop 12 (hexToBytes_v1 packed)) = Inl e
      \<longrightarrow> fst (decryptUtf8AesGcmPacked_v1 P packed key) = Inl e"
    using decrypt_v1_fails [of packed P key e] by blast
  have b: "hexToBytes packed = Inr data \<and> \<not> 8 * length data < 96 + tagLengthBits
      \<and> gcm_decrypt P (material key) (take 12 data) aad tagLengthBits (drop 12 data) = Inl e
      \<longrightarrow> fst (decryptUtf8AesGcmPacked_v3 P packed key aad tagLengthBits)
             = Inl (Error (decrypt_failed_message e))
          \<and> (extractable key \<longrightarrow>
               fst (decryptUtf8AesGcmPacked_v2 P packed key aad tagLengthBits)
                 = Inl (Error (decrypt_failed_message e)))"
    using decrypt_v3_fails [of packed data tagLengthBits P key aad e]
      decrypt_v2_fails [of packed data tagLengthBits P key aad e] by blast
  have c: "decrypt_failed_message (Native ''OperationError'' msg)
       = ''AES-GCM decrypt failed: OperationError (likely key/IV/tag/AAD mismatch)''"
    "decrypt_failed_message (Native [] msg)
       = ''AES-GCM decrypt failed (likely key/IV/tag/AAD mismatch)''"
    by (simp_all add: decrypt_failed_message_def)
  from a b c show ?thesis by blast
qed

theorem C3_decrypt_failure_witness:
  "fst (decryptUtf8AesGcmPacked_v1 toy_platform packed_bad key_a) = Inl (Native ''OperationError'' [])
   \<and> fst (decryptUtf8AesGcmPacked_v3 toy_platform packed_bad key_a None 128)
       = Inl (Error ''AES-GCM decrypt failed: OperationError (likely key/IV/tag/AAD mismatch)'')
   \<and> fst (decryptUtf8AesGcmPacked_v2 toy_platform packed_bad key_a None 128)
       = Inl (Error ''AES-GCM decrypt failed: OperationError (likely key/IV/tag/AAD mismatch)'')"
proof -
  have h1: "12 \<le> length (hexToBytes_v1 packed_bad)"
    by (simp add: hexToBytes_v1_packed_bad data_bad_def)
  have h2: "gcm_decrypt toy_platform (material key_a) (take 12 (hexToBytes_v1 packed_bad)) None 128
       (drop 12 (hexToBytes_v1 packed_bad)) = Inl (Native ''OperationError'' [])"
    unfolding hexToBytes_v1_packed_bad by (rule toy_rejects_data_bad)
  have h3: "\<not> 8 * length data_bad < 96 + (128::nat)" by (simp add: data_bad_def)
  have h4: "extractable key_a" by (simp add: key_a_def)
  from C3_decrypt_failure [of packed_bad toy_platform key_a "Native ''OperationError'' []"
      data_bad 128 None "[]"]
    h1 h2 h3 h4 hexToBytes_packed_bad toy_rejects_data_bad
  show ?thesis by metis
qed

text \<open>
  C4 does not hold of the second copy of \<open>aes.ts\<close>: with an extractable key (the only
  kind that this copy generates or imports) both \<open>encryptUtf8AesGcmPacked\<close> and
  \<open>decryptUtf8AesGcmPacked\<close> write the line \<open>Key (hex):\<close> with the raw key in
  hexadecimal to the console, whatever the other arguments are, through \<open>printKeyHex\<close>,
  and the key can be read back from that line.
\<close>

theorem C4_key_logged:
  "ConsoleLog [VStr ''Key (hex):'', VStr (bufToHex raw)]
     \<in> set (snd (encryptUtf8AesGcmPacked_v2 P rnd s \<lparr>material = raw, extractable = True\<rparr>))
   \<and> ConsoleLog [VStr ''Key (hex):'', VStr (bufToHex raw)]
     \<in> set (snd (decryptUtf8AesGcmPacked_v2 P packed \<lparr>material = raw, extractable = True\<rparr>
                    aad tagLengthBits))
   \<and> snd (printKeyHex \<lparr>material = raw, extractable = True\<rparr>)
       = [SubtleExportKey \<lparr>material = raw, extractable = True\<rparr>,
          ConsoleLog [VStr ''Key (hex):'', VStr (bufToHex raw)]]
   \<and> hexPairs (bufToHex raw) (length raw) = raw
   \<and> bufToHex (material key_a) = ''000102030405060708090a0b0c0d0e0f''"
proof -
  have e: "ConsoleLog [VStr ''Key (hex):'', VStr (bufToHex raw)]
     \<in> set (snd (encryptUtf8AesGcmPacked_v2 P rnd s \<lparr>material = raw, extractable = True\<rparr>))"
    by (simp add: encryptUtf8AesGcmPacked_v2_def printKeyHex_extractable io_defs Let_def)
  have d: "ConsoleLog [VStr ''Key (hex):'', VStr (bufToHex raw)]
     \<in> set (snd (decryptUtf8AesGcmPacked_v2 P packed \<lparr>material = raw, extractable = True\<rparr>
                    aad tagLengthBits))"
    by (simp add: decryptUtf8AesGcmPacked_v2_def printKeyHex_extractable io_defs Let_def
        decrypt_failed_def split: sum.splits prod.splits)
  have p: "snd (printKeyHex \<lparr>material = raw, extractable = True\<rparr>)
       = [SubtleExportKey \<lparr>material = raw, extractable = True\<rparr>,
          ConsoleLog [VStr ''Key (hex):'', VStr (bufToHex raw)]]"
    by (simp add: printKeyHex_extractable)
  have k: "bufToHex (material key_a) = ''000102030405060708090a0b0c0d0e0f''" by code_simp
  from e d p k hexPairs_bufToHex [of raw] show ?thesis by blast
qed

text \<open>
  C6, as stated, fails for the copy of \<open>aesImportRaw16\<close> in \<open>part_006\<close>: it imports the
  key with \<open>extractable = false\<close>, and the export of such a key is refused.
\<close>

theorem C6_counterexample:
  "length (material key_a) = 16
   \<and> (case aesImportRaw16_v3 (material key_a) of Inl e \<Rightarrow> Inl e | Inr key \<Rightarrow> aesExportRaw16 key)
       = Inl (Native ''InvalidAccessError'' [])"
  by (simp add: key_a_def aesImportRaw16_v3_def subtle_importKey_def aesExportRaw16_def
      subtle_exportKey_def)

text \<open>
  C6, amended. For every raw key \<open>k\<close> of 16 bytes, \<open>aesImportRaw16\<close> of either copy in
  \<open>aes.ts\<close> followed by \<open>aesExportRaw16\<close> gives \<open>k\<close> back. The copy of
  \<open>aesImportRaw16\<close> in \<open>part_006\<close> keeps the same 16 bytes in a key that is not
  extractable, which the platform refuses to export.
\<close>

theorem C6_import_export:
  "length k = 16 \<longrightarrow>
     (case aesImportRaw16_v1 k of Inl e \<Rightarrow> Inl e | Inr key \<Rightarrow> aesExportRaw16 key) = Inr k
     \<and> (case aesImportRaw16_v2 k of Inl e \<Rightarrow> Inl e | Inr key \<Rightarrow> aesExportRaw16 key) = Inr k
     \<and> aesImportRaw16_v3 k = Inr \<lparr>material = k, extractable = False\<rparr>
     \<and> subtle_exportKey \<lparr>material = k, extractable = False\<rparr> = Inl (Native ''InvalidAccessError'' [])"
  by (simp add: aesImportRaw16_v1_def aesImportRaw16_v2_def aesImportRaw16_v3_def
      subtle_importKey_def aesExportRaw16_def subtle_exportKey_def)

theorem C6_import_export_witness:
  "length (material key_a) = 16
   \<and> (case aesImportRaw16_v1 (material key_a) of Inl e \<Rightarrow> Inl e | Inr key \<Rightarrow> aesExportRaw16 key)
       = Inr (material key_a)
   \<and> (case aesImportRaw16_v2 (material key_a) of Inl e \<Rightarrow> Inl e | Inr key \<Rightarrow> aesExportRaw16 key)
       = Inr (material key_a)"
proof -
  have h: "length (material key_a) = 16" by (simp add: key_a_def)
  from C6_import_export [of "material key_a"] h show ?thesis by blast
qed

section \<open>Properties of the SDK loader\<close>

lemma patchWasmLoading_applied:
  "wasmPatchApplied l \<Longrightarrow> patchWasmLoading l pg = (l, pg)"
  by (simp add: patchWasmLoading_def)

lemma patchWasmLoading_flag: "wasmPatchApplied (fst (patchWasmLoading l pg))"
  by (simp add: patchWasmLoading_def Let_def)

lemma patchWasmLoading_bound:
  "length (fetch_wrappers (snd (patchWasmLoading l pg))) \<le> Suc (length (fetch_wrappers pg))
   \<and> length (instantiate_wrappers (snd (patchWasmLoading l pg)))
       \<le> Suc (length (instantiate_wrappers pg))"
  by (simp add: patchWasmLoading_def Let_def)

lemma load_wrappers:
  "fetch_wrappers_of (snd (snd (load sr l (Browser pg)))) = fetch_wrappers (snd (patchWasmLoading l pg))
   \<and> instantiate_wrappers_of (snd (snd (load sr l (Browser pg))))
       = instantiate_wrappers (snd (patchWasmLoading l pg))
   \<and> fst (snd (load sr l (Browser pg))) = fst (patchWasmLoading l pg)"
  by (simp add: load_def Let_def split: prod.splits option.splits script_result.splits)

lemma load_Browser: "\<exists>pg'. snd (snd (load sr l (Browser pg))) = Browser pg'"
  by (simp add: load_def Let_def split: prod.splits option.splits script_result.splits)

lemma load_Server: "load sr l (Server p) = (Inl (Error ''RelayerSDKLoader: can only be used in the browser.''), l, Server p)"
  by (simp add: load_def)

lemma load_applied:
  assumes "wasmPatchApplied l"
  shows "wasmPatchApplied (fst (snd (load sr l w)))
     \<and> fetch_wrappers_of (snd (snd (load sr l w))) = fetch_wrappers_of w
     \<and> instantiate_wrappers_of (snd (snd (load sr l w))) = instantiate_wrappers_of w"
proof (cases w)
  case (Server p)
  with assms show ?thesis by (simp add: load_Server)
next
  case (Browser pg)
  with assms show ?thesis by (simp add: load_wrappers patchWasmLoading_applied)
qed

lemma loads_applied:
  "wasmPatchApplied l \<Longrightarrow>
   fetch_wrappers_of (snd (loads srs l w)) = fetch_wrappers_of w
   \<and> instantiate_wrappers_of (snd (loads srs l w)) = instantiate_wrappers_of w"
proof (induction srs arbitrary: l w)
  case Nil
  then show ?case by simp
next
  case (Cons sr srs)
  obtain r l' w' where ld: "load sr l w = (r, l', w')" by (cases "load sr l w") auto
  from load_applied [OF Cons.prems, of sr w] ld
  have "wasmPatchApplied l'" "fetch_wrappers_of w' = fetch_wrappers_of w"
    "instantiate_wrappers_of w' = instantiate_wrappers_of w" by simp_all
  with Cons.IH [of l' w'] ld show ?case by simp
qed

lemma loads_Server: "loads srs l (Server p) = (l, Server p)"
  by (induction srs) (simp_all add: load_Server)


lemma patched_fetch_rewrite:
  assumes "isWasmUrl (input_url input)" "URL_new (input_url input) (Some origin) = Inr u"
    "startsWith (url_pathname u) ''/''" "\<not> startsWith (url_pathname u) basePath"
  shows "patched_fetch basePath URL_new origin input init =
     (case input of
        FString s \<Rightarrow>
          Inr (FString (url_origin u @ basePath @ url_pathname u @ url_search u @ url_hash u), init)
      | FURL x \<Rightarrow>
          (case URL_new (url_origin u @ basePath @ url_pathname u @ url_search u @ url_hash u) None of
             Inl e \<Rightarrow> Inl e
           | Inr u' \<Rightarrow> Inr (FURL u', init))
      | FRequest x r \<Rightarrow>
          Inr (FRequest (url_origin u @ basePath @ url_pathname u @ url_search u @ url_hash u) r, init))"
  using assms by (simp add: patched_fetch_def Let_def split: fetch_input.splits)

lemma patched_fetch_under_base:
  assumes "URL_new (input_url input) (Some origin) = Inr u" "startsWith (url_pathname u) basePath"
  shows "patched_fetch basePath URL_new origin input init = Inr (input, init)"
  using assms by (simp add: patched_fetch_def Let_def)

lemma patched_fetch_other:
  "\<not> isWasmUrl (input_url input) \<Longrightarrow>
   patched_fetch basePath URL_new origin input init = Inr (input, init)"
  by (simp add: patched_fetch_def Let_def)

lemma patch_empty_base:
  "getBasePath (Browser pg) = [] \<Longrightarrow> snd (patchWasmLoading l pg) = pg"
  by (simp add: patchWasmLoading_def Let_def)

lemma patch_installs:
  "getBasePath (Browser pg) \<noteq> [] \<Longrightarrow> \<not> wasmPatchApplied l \<Longrightarrow>
   fetch_wrappers (snd (patchWasmLoading l pg)) = getBasePath (Browser pg) # fetch_wrappers pg"
  by (simp add: patchWasmLoading_def Let_def)

lemma window_fetch_single:
  "fetch_wrappers pg = [b] \<Longrightarrow>
   window_fetch pg URL_new input init = patched_fetch b URL_new (location_origin pg) input init"
  by (simp add: window_fetch_def split: sum.splits)


text \<open>
  C7. The wrapper that is installed for a base path (\<open>/farewell\<close> is the only one that
  \<open>getBasePath\<close> gives) rewrites a request whose URL text contains \<open>.wasm\<close> and whose
  pathname starts with a slash but not with the base path: the original \<open>fetch\<close> receives
  origin, base path, original pathname, query and fragment, in this order, as a string,
  a \<open>URL\<close> or a \<open>Request\<close> like the input. A request whose pathname starts with the base
  path, and every request whose URL does not contain \<open>.wasm\<close>, is handed on as it is. With
  an empty base path \<open>_patchWasmLoading\<close> and \<open>load\<close> install no wrapper; on a page under
  \<open>/farewell\<close> the first call makes \<open>window.fetch\<close> this wrapper.
\<close>

theorem C7_fetch_rewrite:
  "(isWasmUrl (input_url input) \<and> URL_new (input_url input) (Some origin) = Inr u
      \<and> startsWith (url_pathname u) ''/'' \<and> \<not> startsWith (url_pathname u) basePath
     \<longrightarrow> patched_fetch basePath URL_new origin input init =
          (case input of
             FString s \<Rightarrow>
               Inr (FString (url_origin u @ basePath @ url_pathname u @ url_search u @ url_hash u), init)
           | FURL x \<Rightarrow>
               (case URL_new (url_origin u @ basePath @ url_pathname u @ url_search u @ url_hash u) None of
                  Inl e \<Rightarrow> Inl e
                | Inr u' \<Rightarrow> Inr (FURL u', init))
           | FRequest x r \<Rightarrow>
               Inr (FRequest (url_origin u @ basePath @ url_pathname u @ url_search u @ url_hash u) r, init)))
   \<and> (URL_new (input_url input) (Some origin) = Inr u \<and> startsWith (url_pathname u) basePath
     \<longrightarrow> patched_fetch basePath URL_new origin input init = Inr (input, init))
   \<and> (\<not> isWasmUrl (input_url input)
     \<longrightarrow> patched_fetch basePath URL_new origin input init = Inr (input, init))
   \<and> (getBasePath (Browser pg) = []
     \<longrightarrow> snd (patchWasmLoading l pg) = pg
         \<and> fetch_wrappers_of (snd (snd (load sr l (Browser pg)))) = fetch_wrappers pg
         \<and> instantiate_wrappers_of (snd (snd (load sr l (Browser pg)))) = instantiate_wrappers pg)
   \<and> (startsWith (location_pathname pg) ''/farewell'' \<and> \<not> wasmPatchApplied l \<and> fetch_wrappers pg = []
     \<longrightarrow> fetch_wrappers (snd (patchWasmLoading l pg)) = [''/farewell'']
         \<and> window_fetch (snd (patchWasmLoading l pg)) URL_new input init
             = patched_fetch ''/farewell'' URL_new (location_origin pg) input init)"
proof -
  have a: "isWasmUrl (input_url input) \<and> URL_new (input_url input) (Some origin) = Inr u
      \<and> startsWith (url_pathname u) ''/'' \<and> \<not> startsWith (url_pathname u) basePath
     \<longrightarrow> patched_fetch basePath URL_new origin input init =
          (case input of
             FString s \<Rightarrow>
               Inr (FString (url_origin u @ basePath @ url_pathname u @ url_search u @ url_hash u), init)
           | FURL x \<Rightarrow>
               (case URL_new (url_origin u @ basePath @ url_pathname u @ url_search u @ url_hash u) None of
                  Inl e \<Rightarrow> Inl e
                | Inr u' \<Rightarrow> Inr (FURL u', init))
           | FRequest x r \<Rightarrow>
               Inr (FRequest (url_origin u @ basePath @ url_pathname u @ url_search u @ url_hash u) r, init))"
    using patched_fetch_rewrite [of input URL_new origin u basePath init] by blast
  have b: "URL_new (input_url input) (Some origin) = Inr u \<and> startsWith (url_pathname u) basePath
     \<longrightarrow> patched_fetch basePath URL_new origin input init = Inr (input, init)"
    using patched_fetch_under_base [of URL_new input origin u basePath init] by blast
  have c: "\<not> isWasmUrl (input_url input)
     \<longrightarrow> patched_fetch basePath URL_new origin input init = Inr (input, init)"
    using patched_fetch_other [of input basePath URL_new origin init] by blast
  have d: "getBasePath (Browser pg) = []
     \<longrightarrow> snd (patchWasmLoading l pg) = pg
         \<and> fetch_wrappers_of (snd (snd (load sr l (Browser pg)))) = fetch_wrappers pg
         \<and> instantiate_wrappers_of (snd (snd (load sr l (Browser pg)))) = instantiate_wrappers pg"
    using load_wrappers [of sr l pg] by (simp add: patch_empty_base)
  have e: "startsWith (location_pathname pg) ''/farewell'' \<and> \<not> wasmPatchApplied l \<and> fetch_wrappers pg = []
     \<longrightarrow> fetch_wrappers (snd (patchWasmLoading l pg)) = [''/farewell'']
         \<and> window_fetch (snd (patchWasmLoading l pg)) URL_new input init
             = patched_fetch ''/farewell'' URL_new (location_origin pg) input init"
  proof (intro impI, elim conjE)
    assume h: "startsWith (location_pathname pg) ''/farewell''" "\<not> wasmPatchApplied l"
      "fetch_wrappers pg = []"
    then have g: "getBasePath (Browser pg) = ''/farewell''" by (simp add: getBasePath_def)
    with h have f: "fetch_wrappers (snd (patchWasmLoading l pg)) = [''/farewell'']"
      by (simp add: patch_installs)
    have o: "location_origin (snd (patchWasmLoading l pg)) = location_origin pg"
      by (simp add: patchWasmLoading_def Let_def)
    from window_fetch_single [OF f, of URL_new input init] f o
    show "fetch_wrappers (snd (patchWasmLoading l pg)) = [''/farewell'']
         \<and> window_fetch (snd (patchWasmLoading l pg)) URL_new input init
             = patched_fetch ''/farewell'' URL_new (location_origin pg) input init"
      by simp
  qed
  from a b c d e show ?thesis by blast
qed

theorem C7_fetch_rewrite_witness:
  "patched_fetch ''/farewell'' toy_URL ''https://example.org''
       (FString ''/tfhe_bg.wasm?v=1#x'' :: unit fetch_input) ()
     = Inr (FString ''https://example.org/farewell/tfhe_bg.wasm?v=1#x'', ())
   \<and> patched_fetch ''/farewell'' toy_URL ''https://example.org''
       (FString ''/farewell/tfhe_bg.wasm'' :: unit fetch_input) ()
     = Inr (FString ''/farewell/tfhe_bg.wasm'', ())
   \<and> patched_fetch ''/farewell'' toy_URL ''https://example.org''
       (FString ''/api/data.json'' :: unit fetch_input) ()
     = Inr (FString ''/api/data.json'', ())
   \<and> snd (patchWasmLoading new_loader page_root) = page_root
   \<and> fetch_wrappers (snd (patchWasmLoading new_loader page0)) = [''/farewell'']"
proof -
  have h1: "isWasmUrl (input_url (FString ''/tfhe_bg.wasm?v=1#x'' :: unit fetch_input))"
    by (simp add: isWasmUrl_def startsWith_def)
  have h2: "toy_URL (input_url (FString ''/tfhe_bg.wasm?v=1#x'' :: unit fetch_input))
      (Some ''https://example.org'') = Inr url_tfhe"
    by (simp add: toy_URL_def startsWith_def url_tfhe_def)
  have h3: "startsWith (url_pathname url_tfhe) ''/''"
    "\<not> startsWith (url_pathname url_tfhe) ''/farewell''"
    by (simp_all add: url_tfhe_def startsWith_def)
  have n: "url_origin url_tfhe @ ''/farewell'' @ url_pathname url_tfhe @ url_search url_tfhe
      @ url_hash url_tfhe = ''https://example.org/farewell/tfhe_bg.wasm?v=1#x''"
    by (simp add: url_tfhe_def)
  have h4: "toy_URL (input_url (FString ''/farewell/tfhe_bg.wasm'' :: unit fetch_input))
      (Some ''https://example.org'')
     = Inr \<lparr>url_href = ''https://example.org/farewell/tfhe_bg.wasm'',
            url_origin = ''https://example.org'', url_pathname = ''/farewell/tfhe_bg.wasm'',
            url_search = [], url_hash = []\<rparr>"
    by (simp add: toy_URL_def startsWith_def)
  have h5: "startsWith (url_pathname \<lparr>url_href = ''https://example.org/farewell/tfhe_bg.wasm'',
            url_origin = ''https://example.org'', url_pathname = ''/farewell/tfhe_bg.wasm'',
            url_search = [], url_hash = []\<rparr>) ''/farewell''"
    by (simp add: startsWith_def)
  have h6: "\<not> isWasmUrl (input_url (FString ''/api/data.json'' :: unit fetch_input))"
    by (simp add: isWasmUrl_def startsWith_def endsWith_def)
  have h7: "getBasePath (Browser page_root) = []"
    by (simp add: getBasePath_def page_root_def startsWith_def)
  have h8: "startsWith (location_pathname page0) ''/farewell'' \<and> \<not> wasmPatchApplied new_loader
      \<and> fetch_wrappers page0 = []"
    by (simp add: page0_def new_loader_def startsWith_def)
  from C7_fetch_rewrite [of "FString ''/tfhe_bg.wasm?v=1#x'' :: unit fetch_input" toy_URL "''https://example.org''"
      url_tfhe "''/farewell''" "()" page0 new_loader ScriptError] h1 h2 h3 n
  have c1: "patched_fetch ''/farewell'' toy_URL ''https://example.org''
       (FString ''/tfhe_bg.wasm?v=1#x'' :: unit fetch_input) ()
     = Inr (FString ''https://example.org/farewell/tfhe_bg.wasm?v=1#x'', ())"
    by simp
  from C7_fetch_rewrite [of "FString ''/farewell/tfhe_bg.wasm'' :: unit fetch_input" toy_URL "''https://example.org''"
      _ "''/farewell''" "()" page_root new_loader ScriptError] h4 h5 h7
  have c2: "patched_fetch ''/farewell'' toy_URL ''https://example.org''
       (FString ''/farewell/tfhe_bg.wasm'' :: unit fetch_input) ()
     = Inr (FString ''/farewell/tfhe_bg.wasm'', ())"
    and c4: "snd (patchWasmLoading new_loader page_root) = page_root"
    by blast+
  from C7_fetch_rewrite [of "FString ''/api/data.json'' :: unit fetch_input" toy_URL "''https://example.org''"
      _ "''/farewell''" "()" page0 new_loader ScriptError] h6 h8
  have c3: "patched_fetch ''/farewell'' toy_URL ''https://example.org''
       (FString ''/api/data.json'' :: unit fetch_input) ()
     = Inr (FString ''/api/data.json'', ())"
    and c5: "fetch_wrappers (snd (patchWasmLoading new_loader page0)) = [''/farewell'']"
    by blast+
  from c1 c2 c3 c4 c5 show ?thesis by blast
qed

text \<open>
  C8, as stated, fails: the flag \<open>_wasmPatchApplied\<close> is a field of the loader object, so
  two loader objects that call \<open>load\<close> in one page session under \<open>/farewell\<close> each wrap
  \<open>fetch\<close> and \<open>instantiateStreaming\<close>, which are then wrapped twice.
\<close>

theorem C8_counterexample:
  "fetch_wrappers_of after_two_loaders = [''/farewell'', ''/farewell'']
   \<and> instantiate_wrappers_of after_two_loaders = [''/farewell'', ''/farewell'']"
  by (simp add: after_two_loaders_def load_def patchWasmLoading_def new_loader_def page0_def
      getBasePath_def getSDKCDNUrl_def startsWith_def isFhevmWindowType_def Let_def)

text \<open>
  C8, amended. For any sequence of calls of \<open>load\<close> on one loader object, whatever its
  flag at the start and wherever it runs, \<open>fetch\<close> and \<open>instantiateStreaming\<close> are wrapped
  at most once more than they were.
\<close>

theorem C8_patch_once_per_loader:
  "length (fetch_wrappers_of (snd (loads srs l w))) \<le> Suc (length (fetch_wrappers_of w))
   \<and> length (instantiate_wrappers_of (snd (loads srs l w)))
       \<le> Suc (length (instantiate_wrappers_of w))"
proof (cases srs)
  case Nil
  then show ?thesis by simp
next
  case (Cons sr srs')
  show ?thesis
  proof (cases w)
    case (Server p)
    then show ?thesis by (simp add: loads_Server)
  next
    case (Browser pg)
    obtain r l' w' where ld: "load sr l w = (r, l', w')" by (cases "load sr l w") auto
    from load_wrappers [of sr l pg] ld Browser
    have w': "fetch_wrappers_of w' = fetch_wrappers (snd (patchWasmLoading l pg))"
      "instantiate_wrappers_of w' = instantiate_wrappers (snd (patchWasmLoading l pg))"
      and l': "l' = fst (patchWasmLoading l pg)" by simp_all
    from l' have "wasmPatchApplied l'" by (simp add: patchWasmLoading_flag)
    from loads_applied [OF this, of srs' w'] w' patchWasmLoading_bound [of l pg] Cons ld Browser
    show ?thesis by simp
  qed
qed


end
